theory Spec2Isabelle
  imports Complex_Main
begin

section \<open>Strings, arrays and sets of the source language\<close>

text \<open>
  The client is TypeScript. A string of the source is a sequence of UTF-16 code units,
  modelled as a list of naturals; \<open>js\<close> turns an ASCII literal into one, and code
  units outside ASCII (the e-acute of "Hyatt Priv\'e", the en dash of a description) are
  written as numbers.
\<close>

type_synonym jsstring = "nat list"

definition js :: "string \<Rightarrow> jsstring" where
  "js s = map of_char s"

text \<open>
  \<open>String.prototype.trim\<close> removes the WhiteSpace and LineTerminator code points of
  ECMAScript from both ends. All of them lie in the basic plane, so each is one code unit.
\<close>

definition is_white_space :: "nat \<Rightarrow> bool" where
  "is_white_space c \<longleftrightarrow>
     c \<in> {9, 10, 11, 12, 13, 32, 160, 5760, 8232, 8233, 8239, 8287, 12288, 65279}
     \<or> (8192 \<le> c \<and> c \<le> 8202)"

definition trim :: "jsstring \<Rightarrow> jsstring" where
  "trim s = rev (dropWhile is_white_space (rev (dropWhile is_white_space s)))"

text \<open>\<open>Array.prototype.join\<close> on an array of strings.\<close>

fun join :: "jsstring \<Rightarrow> jsstring list \<Rightarrow> jsstring" where
  "join sep [] = []"
| "join sep [x] = x"
| "join sep (x # y # ys) = x @ sep @ join sep (y # ys)"

text \<open>
  \<open>String.prototype.split\<close> with a separator of one code unit: a string with \<open>k\<close>
  separators gives \<open>k + 1\<close> pieces, the empty string gives one empty piece.
\<close>

fun split :: "nat \<Rightarrow> jsstring \<Rightarrow> jsstring list" where
  "split sep [] = [[]]"
| "split sep (c # cs) =
     (if c = sep then [] # split sep cs
      else (case split sep cs of [] \<Rightarrow> [[c]] | p # ps \<Rightarrow> (c # p) # ps))"

text \<open>
  \<open>Array.prototype.slice(start, end)\<close> for indices that are not negative: the elements
  from \<open>start\<close> up to, not including, \<open>end\<close>, as far as the array goes.
\<close>

definition slice :: "'a list \<Rightarrow> nat \<Rightarrow> nat \<Rightarrow> 'a list" where
  "slice xs start end = take (end - start) (drop start xs)"

text \<open>
  \<open>[...new Set(xs)]\<close>: a Set keeps its members in insertion order and ignores a value
  that is already a member, so spreading it gives the first occurrences of \<open>xs\<close> in order.
\<close>

definition set_add :: "'a list \<Rightarrow> 'a \<Rightarrow> 'a list" where
  "set_add members x = (if x \<in> set members then members else members @ [x])"

definition new_Set :: "'a list \<Rightarrow> 'a list" where
  "new_Set xs = foldl set_add [] xs"

text \<open>A string is truthy when it is not empty; an absent value is falsy.\<close>

fun truthy :: "jsstring option \<Rightarrow> bool" where
  "truthy None = False"
| "truthy (Some s) = (s \<noteq> [])"

section \<open>Request batcher: partitioning the property identifiers\<close>

text \<open>
  \<^verbatim>\<open>
  const BATCH_SIZE = 20;
  for (let i = 0; i < allIds.length; i += BATCH_SIZE) {
    batches.push(allIds.slice(i, i + BATCH_SIZE));
  }
  \<close>
\<close>

definition BATCH_SIZE :: nat where
  "BATCH_SIZE = 20"

function batches_loop :: "'a list \<Rightarrow> nat \<Rightarrow> 'a list list \<Rightarrow> 'a list list" where
  "batches_loop allIds i batches =
     (if i < length allIds
      then batches_loop allIds (i + BATCH_SIZE) (batches @ [slice allIds i (i + BATCH_SIZE)])
      else batches)"
  by pat_completeness auto
termination
  by (relation "measure (\<lambda>(allIds, i, batches). length allIds - i)")
     (auto simp: BATCH_SIZE_def)

declare batches_loop.simps [simp del]

definition make_batches :: "'a list \<Rightarrow> 'a list list" where
  "make_batches allIds = batches_loop allIds 0 []"


section \<open>Supplier code registry\<close>

text \<open>
  \<open>SUPPLIER_CODES\<close> is an object literal keyed by rate code. The repository holds the
  client in two revisions: \<open>amadeus-client.ts\<close>, with ten codes and no cap on the
  rate codes of a request, and a later revision (the unnamed source file) with the six
  consortium codes, a \<open>benefits\<close> list for each, \<open>MAX_RATE_CODES = 6\<close> and another
  default payment policy and production host. A \<open>revision\<close> collects what differs; every
  operation below takes the revision as its first argument.
\<close>

record supplier_info =
  name :: jsstring
  description :: jsstring
  benefits :: "jsstring list option"

record revision =
  SUPPLIER_CODES :: "(jsstring \<times> supplier_info) list"
  MAX_RATE_CODES :: "nat option"
  default_paymentPolicy :: jsstring
  production_baseUrl :: jsstring

definition amadeus_client_ts :: revision where
  "amadeus_client_ts = \<lparr>
     SUPPLIER_CODES = [
       (js ''APS'', \<lparr>name = js ''Virtuoso'',
          description = js ''Exclusive luxury travel network '' @ [8211] @ js '' VIP amenities and upgrades'',
          benefits = None\<rparr>),
       (js ''PP6'', \<lparr>name = js ''Four Seasons Preferred Partner'',
          description = js ''Exclusive benefits at Four Seasons properties'', benefits = None\<rparr>),
       (js ''3MF'', \<lparr>name = js ''Mandarin Oriental Fan Club'',
          description = js ''Fan Club benefits at Mandarin Oriental properties worldwide'',
          benefits = None\<rparr>),
       (js ''1HZ'', \<lparr>name = js ''Hyatt Priv'' @ [233],
          description = js ''Exclusive amenities at Hyatt Hotels via Priv'' @ [233] @ js '' program'',
          benefits = None\<rparr>),
       (js ''W9E'', \<lparr>name = js ''SLH (Small Luxury Hotels)'',
          description = js ''Boutique luxury experiences through Small Luxury Hotels'',
          benefits = None\<rparr>),
       (js ''PR2'', \<lparr>name = js ''Preferred Hotels & Resorts'',
          description = js ''Preferred Hotels iPrefer benefits and amenities'', benefits = None\<rparr>),
       (js ''RAC'', \<lparr>name = js ''Rack Rate'',
          description = js ''Standard published hotel rate'', benefits = None\<rparr>),
       (js ''AAA'', \<lparr>name = js ''AAA Rate'',
          description = js ''Special rates for AAA/CAA members'', benefits = None\<rparr>),
       (js ''BED'', \<lparr>name = js ''Bed & Breakfast'',
          description = js ''Rate including daily breakfast'', benefits = None\<rparr>),
       (js ''PFK'', \<lparr>name = js ''Package Rate'',
          description = js ''Special package with additional amenities'', benefits = None\<rparr>)],
     MAX_RATE_CODES = None,
     default_paymentPolicy = js ''NONE'',
     production_baseUrl = js ''https://api.amadeus.com''\<rparr>"

definition part_000 :: revision where
  "part_000 = \<lparr>
     SUPPLIER_CODES = [
       (js ''APS'', \<lparr>name = js ''Virtuoso'',
          description = js ''Exclusive luxury travel network - VIP amenities and upgrades'',
          benefits = Some [
            js ''Room upgrade at check-in (subject to availability)'',
            js ''Daily breakfast for two'',
            js ''Early check-in / late checkout (subject to availability)'',
            js ''USD 100 hotel credit per stay'',
            js ''Complimentary Wi-Fi'']\<rparr>),
       (js ''PP6'', \<lparr>name = js ''Four Seasons Preferred Partner'',
          description = js ''Exclusive benefits at Four Seasons properties'',
          benefits = Some [
            js ''Room upgrade at check-in (subject to availability)'',
            js ''Daily breakfast for two'',
            js ''Late checkout (subject to availability)'',
            js ''USD 100 hotel credit per stay'',
            js ''Complimentary Wi-Fi'']\<rparr>),
       (js ''3MF'', \<lparr>name = js ''Mandarin Oriental Fan Club'',
          description = js ''Fan Club benefits at Mandarin Oriental properties worldwide'',
          benefits = Some [
            js ''Room upgrade at check-in (subject to availability)'',
            js ''Daily breakfast for two'',
            js ''Early check-in / late checkout (subject to availability)'',
            js ''USD 100 hotel credit per stay'',
            js ''Complimentary pressing of two garments'']\<rparr>),
       (js ''1HZ'', \<lparr>name = js ''Hyatt Prive'',
          description = js ''Exclusive amenities at Hyatt Hotels via Prive program'',
          benefits = Some [
            js ''Room upgrade at check-in (subject to availability)'',
            js ''Daily breakfast for two'',
            js ''Early check-in / late checkout (subject to availability)'',
            js ''USD 100 property credit per stay'',
            js ''Complimentary Wi-Fi'']\<rparr>),
       (js ''W9E'', \<lparr>name = js ''SLH (Small Luxury Hotels)'',
          description = js ''Boutique luxury experiences through Small Luxury Hotels of the World'',
          benefits = Some [
            js ''Room upgrade at check-in (subject to availability)'',
            js ''Daily breakfast for two'',
            js ''Late checkout (subject to availability)'',
            js ''USD 100 hotel credit per stay'',
            js ''VIP recognition'']\<rparr>),
       (js ''PR2'', \<lparr>name = js ''Preferred Hotels & Resorts'',
          description = js ''Preferred Hotels iPrefer benefits and amenities'',
          benefits = Some [
            js ''Room upgrade at check-in (subject to availability)'',
            js ''Daily breakfast for two'',
            js ''Late checkout (subject to availability)'',
            js ''USD 100 property credit per stay'',
            js ''iPrefer loyalty points'']\<rparr>)],
     MAX_RATE_CODES = Some 6,
     default_paymentPolicy = js ''GUARANTEE'',
     production_baseUrl = js ''https://travel.api.amadeus.com''\<rparr>"

text \<open>
  \<open>Object.keys\<close> of the literal: its own keys, in the order they are written (none of
  them is an array index).
\<close>

definition Object_keys :: "(jsstring \<times> 'a) list \<Rightarrow> jsstring list" where
  "Object_keys obj = map fst obj"

text \<open>
  \<open>SUPPLIER_CODES[code]\<close> is a property read on an ordinary object: the object's own
  property if it has one of that name, otherwise the property of that name of
  \<open>Object.prototype\<close>, otherwise \<open>undefined\<close>. The members of \<open>Object.prototype\<close>
  are functions, each with a \<open>name\<close> property, except \<open>__proto__\<close>, whose getter
  returns \<open>Object.prototype\<close> itself, an object without a \<open>name\<close>. All of them are
  truthy.
\<close>

datatype 'a property = Own 'a | Inherited "jsstring option"

definition Object_prototype :: "(jsstring \<times> jsstring option) list" where
  "Object_prototype = [
     (js ''constructor'', Some (js ''Object'')),
     (js ''__defineGetter__'', Some (js ''__defineGetter__'')),
     (js ''__defineSetter__'', Some (js ''__defineSetter__'')),
     (js ''hasOwnProperty'', Some (js ''hasOwnProperty'')),
     (js ''__lookupGetter__'', Some (js ''__lookupGetter__'')),
     (js ''__lookupSetter__'', Some (js ''__lookupSetter__'')),
     (js ''isPrototypeOf'', Some (js ''isPrototypeOf'')),
     (js ''propertyIsEnumerable'', Some (js ''propertyIsEnumerable'')),
     (js ''toString'', Some (js ''toString'')),
     (js ''valueOf'', Some (js ''valueOf'')),
     (js ''__proto__'', None),
     (js ''toLocaleString'', Some (js ''toLocaleString''))]"

definition get_property :: "(jsstring \<times> 'a) list \<Rightarrow> jsstring \<Rightarrow> 'a property option" where
  "get_property obj key =
     (case map_of obj key of
        Some v \<Rightarrow> Some (Own v)
      | None \<Rightarrow> map_option Inherited (map_of Object_prototype key))"

section \<open>Client construction and the default rate codes\<close>

text \<open>
  \<^verbatim>\<open>
  if (process.env.AMADEUS_RATE_CODES) {
    this.defaultSupplierCodes = process.env.AMADEUS_RATE_CODES
      .split(",").map((c) => c.trim()).filter(Boolean);
  } else {
    this.defaultSupplierCodes = Object.keys(SUPPLIER_CODES);
  }
  if (!this.clientId || !this.clientSecret) throw new Error(...)
  \<close>
\<close>

record environment =
  AMADEUS_ENV :: "jsstring option"
  AMADEUS_CLIENT_ID :: "jsstring option"
  AMADEUS_CLIENT_SECRET :: "jsstring option"
  AMADEUS_GUEST_OFFICE_ID :: "jsstring option"
  AMADEUS_RATE_CODES :: "jsstring option"

record AmadeusClient =
  clientId :: jsstring
  clientSecret :: jsstring
  guestOfficeId :: "jsstring option"
  baseUrl :: jsstring
  authUrl :: jsstring
  defaultSupplierCodes :: "jsstring list"

definition configured_codes :: "revision \<Rightarrow> jsstring option \<Rightarrow> jsstring list" where
  "configured_codes v rate_codes =
     (case rate_codes of
        Some s \<Rightarrow>
          if s \<noteq> [] then filter (\<lambda>c. c \<noteq> []) (map trim (split 44 s))
          else Object_keys (SUPPLIER_CODES v)
      | None \<Rightarrow> Object_keys (SUPPLIER_CODES v))"

definition constructor :: "revision \<Rightarrow> environment \<Rightarrow> jsstring + AmadeusClient" where
  "constructor v env =
     (let isTest = (AMADEUS_ENV env = Some (js ''test''));
          cid = (case AMADEUS_CLIENT_ID env of None \<Rightarrow> [] | Some s \<Rightarrow> s);
          secret = (case AMADEUS_CLIENT_SECRET env of None \<Rightarrow> [] | Some s \<Rightarrow> s);
          base = (if isTest then js ''https://test.travel.api.amadeus.com''
                  else production_baseUrl v)
      in if cid = [] \<or> secret = []
         then Inl (js ''AMADEUS_CLIENT_ID and AMADEUS_CLIENT_SECRET environment variables are required'')
         else Inr \<lparr>clientId = cid, clientSecret = secret,
                    guestOfficeId = AMADEUS_GUEST_OFFICE_ID env,
                    baseUrl = base,
                    authUrl = base @ js ''/v1/security/oauth2/token'',
                    defaultSupplierCodes = configured_codes v (AMADEUS_RATE_CODES env)\<rparr>)"

definition getDefaultSupplierCodes :: "AmadeusClient \<Rightarrow> jsstring list" where
  "getDefaultSupplierCodes client = defaultSupplierCodes client"

section \<open>Errors\<close>

text \<open>
  A thrown value is either an axios error, with its message and, when the upstream
  answered, the status and the body of the response (\<open>err.response?.data\<close>), or any
  other error with its message. The type \<open>'j\<close> stands for the JSON values the client
  passes through without looking inside.
\<close>

datatype 'j js_error =
    AxiosError jsstring "(nat \<times> 'j option) option"
  | Error jsstring

fun isAxiosError :: "'j js_error \<Rightarrow> bool" where
  "isAxiosError (AxiosError m r) = True"
| "isAxiosError (Error m) = False"

fun message :: "'j js_error \<Rightarrow> jsstring" where
  "message (AxiosError m r) = m"
| "message (Error m) = m"

fun response_status :: "'j js_error \<Rightarrow> nat option" where
  "response_status (AxiosError m (Some (st, d))) = Some st"
| "response_status e = None"

fun response_data :: "'j js_error \<Rightarrow> 'j option" where
  "response_data (AxiosError m (Some (st, d))) = d"
| "response_data e = None"

section \<open>Token manager\<close>

text \<open>
  \<^verbatim>\<open>
  private async getAccessToken(): Promise<string> {
    const now = Date.now();
    if (this.accessToken && now < this.tokenExpiresAt - 30_000) {
      return this.accessToken;
    }
    const params = { grant_type: "client_credentials", client_id: ..., client_secret: ... };
    if (this.guestOfficeId) params.guest_office_id = this.guestOfficeId;
    const response = await axios.post(this.authUrl, new URLSearchParams(params).toString(), ...);
    this.accessToken = response.data.access_token;
    this.tokenExpiresAt = now + response.data.expires_in * 1000;
    return this.accessToken;
  }
  \<close>
  Times are milliseconds since the epoch and \<open>expires_in\<close> is a number of seconds, both
  integers, and \<open>now\<close> is what \<open>Date.now()\<close> returns. The token endpoint is a function
  from the posted form to its outcome: the response, or the error \<open>axios.post\<close> throws.
  The operation returns its result, the cache as it leaves it, and the posts it made. The
  headers of the post (the content type, and the request reference of the later revision)
  are left out.
\<close>

record token_cache =
  accessToken :: "jsstring option"
  tokenExpiresAt :: int

definition initial_cache :: token_cache where
  "initial_cache = \<lparr>accessToken = None, tokenExpiresAt = 0\<rparr>"

record AmadeusTokenResponse =
  access_token :: jsstring
  expires_in :: int

record token_post =
  post_url :: jsstring
  post_form :: "(jsstring \<times> jsstring) list"

definition token_form :: "AmadeusClient \<Rightarrow> (jsstring \<times> jsstring) list" where
  "token_form client =
     [(js ''grant_type'', js ''client_credentials''),
      (js ''client_id'', clientId client),
      (js ''client_secret'', clientSecret client)]
     @ (case guestOfficeId client of
          Some office \<Rightarrow> if office \<noteq> [] then [(js ''guest_office_id'', office)] else []
        | None \<Rightarrow> [])"

definition the_post :: "AmadeusClient \<Rightarrow> token_post" where
  "the_post client = \<lparr>post_url = authUrl client, post_form = token_form client\<rparr>"

definition exchange ::
  "AmadeusClient \<Rightarrow> (token_post \<Rightarrow> 'j js_error + AmadeusTokenResponse) \<Rightarrow> int \<Rightarrow> token_cache
     \<Rightarrow> ('j js_error + jsstring) \<times> token_cache \<times> token_post list" where
  "exchange client endpoint now cache =
     (case endpoint (the_post client) of
        Inl err \<Rightarrow> (Inl err, cache, [the_post client])
      | Inr response \<Rightarrow>
          (Inr (access_token response),
           \<lparr>accessToken = Some (access_token response),
            tokenExpiresAt = now + expires_in response * 1000\<rparr>,
           [the_post client]))"

definition getAccessToken ::
  "AmadeusClient \<Rightarrow> (token_post \<Rightarrow> 'j js_error + AmadeusTokenResponse) \<Rightarrow> int \<Rightarrow> token_cache
     \<Rightarrow> ('j js_error + jsstring) \<times> token_cache \<times> token_post list" where
  "getAccessToken client endpoint now cache =
     (case accessToken cache of
        Some token \<Rightarrow>
          if token \<noteq> [] \<and> now < tokenExpiresAt cache - 30000
          then (Inr token, cache, [])
          else exchange client endpoint now cache
      | None \<Rightarrow> exchange client endpoint now cache)"

text \<open>The test that lets the cached token through.\<close>

definition fresh_enough :: "int \<Rightarrow> token_cache \<Rightarrow> bool" where
  "fresh_enough now cache \<longleftrightarrow>
     (case accessToken cache of
        Some token \<Rightarrow> token \<noteq> [] \<and> now < tokenExpiresAt cache - 30000
      | None \<Rightarrow> False)"

section \<open>Data of the pricing and search operations\<close>

text \<open>
  The interfaces of \<open>types.ts\<close>. A field marked \<open>?\<close> there is an \<open>option\<close> here.
  Fields the client never reads (the price, the room, the policies of an offer; the
  identity of a hotel) are kept together as one value of type \<open>'j\<close>; numbers are of
  type \<open>'n\<close>. The coordinates of a geocode search arrive as JSON and the handler
  lets \<open>null\<close> through, so they are a number or \<open>null\<close>.
\<close>

record 'j Offer =
  rateCode :: "jsstring option"
  supplierName :: "jsstring option"
  isNegotiatedRate :: "bool option"
  offer_fields :: 'j

record 'j HotelOffer =
  hotel :: 'j
  available :: bool
  offers :: "'j Offer list option"
  hotel_fields :: 'j

record 'n search_filters =
  radius :: "'n option"
  radiusUnit :: "jsstring option"
  chainCodes :: "jsstring list option"
  amenities :: "jsstring list option"
  ratings :: "jsstring list option"
  hotelSource :: "jsstring option"

record 'n SearchHotelsByCity = "'n search_filters" +
  cityCode :: jsstring

datatype 'n nullable = Null | Number 'n

record 'n SearchHotelsByGeocode = "'n search_filters" +
  latitude :: "'n nullable"
  longitude :: "'n nullable"

record 'n offer_options =
  adults :: "'n option"
  roomQuantity :: "'n option"
  currency :: "jsstring option"
  priceRange :: "jsstring option"
  rateCodes :: "jsstring list option"
  paymentPolicy :: "jsstring option"
  boardType :: "jsstring option"
  lang :: "jsstring option"

record 'n GetHotelOffers = "'n offer_options" +
  hotelIds :: "jsstring list"
  checkInDate :: jsstring
  checkOutDate :: jsstring

record GetHotelOfferById =
  offerId :: jsstring
  offer_lang :: "jsstring option"

section \<open>The upstream service\<close>

text \<open>
  Every call of the client to the hotel API is \<open>this.http.get(path, {params})\<close>. The
  model records each such call as an event and takes its outcome from an oracle: the
  response, or the error the call throws (an error of the upstream, of the network, or of
  the request interceptor that attaches the bearer token). The outcome of a pricing call
  may depend on which call of the query it is, so that oracle also takes the call's index.
  For the search calls the event keeps the parameters the query string is built from.
\<close>

datatype 'n upstream_call =
    HotelsByCity "'n SearchHotelsByCity"
  | HotelsByGeocode "'n SearchHotelsByGeocode"
  | HotelOffers "(jsstring \<times> jsstring) list"
  | HotelOfferById GetHotelOfferById
  | HotelContent jsstring

datatype 'n event = Call "'n upstream_call" | Delay nat

record ('j, 'n) upstream =
  hotels_by_city :: "'n SearchHotelsByCity \<Rightarrow> 'j js_error + 'j list option"
  hotels_by_geocode :: "'n SearchHotelsByGeocode \<Rightarrow> 'j js_error + 'j list option"
  hotel_offers :: "nat \<Rightarrow> (jsstring \<times> jsstring) list \<Rightarrow> 'j js_error + 'j HotelOffer list option"
  hotel_offer_by_id :: "GetHotelOfferById \<Rightarrow> 'j js_error + 'j"
  hotel_content :: "jsstring \<Rightarrow> 'j js_error + 'j option"

text \<open>What \<open>console.error\<close> is called with.\<close>

datatype 'j console_line =
    BatchError nat "'j + jsstring"
  | ContentUnavailable jsstring jsstring

section \<open>Offer enrichment\<close>

text \<open>
  \<^verbatim>\<open>
  const enriched = response.data.data.map((hotel) => ({
    ...hotel,
    offers: hotel.offers?.map((offer) => {
      const code = offer.rateCode?.trim() ?? "";
      const supplierInfo = SUPPLIER_CODES[code];
      return { ...offer, supplierName: supplierInfo?.name,
               isNegotiatedRate: Boolean(supplierInfo) };
    }),
  }));
  allResults.push(...enriched.filter((h) => h.available && (h.offers?.length ?? 0) > 0));
  \<close>
\<close>

definition property_name :: "supplier_info property option \<Rightarrow> jsstring option" where
  "property_name supplierInfo =
     (case supplierInfo of
        None \<Rightarrow> None
      | Some (Own info) \<Rightarrow> Some (name info)
      | Some (Inherited n) \<Rightarrow> n)"

definition enrich_offer :: "revision \<Rightarrow> 'j Offer \<Rightarrow> 'j Offer" where
  "enrich_offer v offer =
     (let code = (case rateCode offer of Some c \<Rightarrow> trim c | None \<Rightarrow> []);
          supplierInfo = get_property (SUPPLIER_CODES v) code
      in offer\<lparr>supplierName := property_name supplierInfo,
               isNegotiatedRate := Some (supplierInfo \<noteq> None)\<rparr>)"

definition enrich_hotel :: "revision \<Rightarrow> 'j HotelOffer \<Rightarrow> 'j HotelOffer" where
  "enrich_hotel v h = h\<lparr>offers := map_option (map (enrich_offer v)) (offers h)\<rparr>"

definition has_inventory :: "'j HotelOffer \<Rightarrow> bool" where
  "has_inventory h \<longleftrightarrow>
     available h \<and> (case offers h of Some os \<Rightarrow> length os | None \<Rightarrow> 0) > 0"

definition enriched_available :: "revision \<Rightarrow> 'j HotelOffer list \<Rightarrow> 'j HotelOffer list" where
  "enriched_available v data = filter has_inventory (map (enrich_hotel v) data)"

section \<open>Batched pricing\<close>

text \<open>
  \<^verbatim>\<open>
  const rateCodes = [
    ...new Set([...(params.rateCodes ?? []), ...this.defaultSupplierCodes]),
  ].slice(0, MAX_RATE_CODES);
  \<close>
  The earlier revision has no \<open>slice\<close>.
\<close>

definition caller_codes :: "jsstring list option \<Rightarrow> jsstring list" where
  "caller_codes supplied = (case supplied of Some cs \<Rightarrow> cs | None \<Rightarrow> [])"

definition merge_rate_codes :: "jsstring list option \<Rightarrow> jsstring list \<Rightarrow> jsstring list" where
  "merge_rate_codes supplied defaults = new_Set (caller_codes supplied @ defaults)"

definition request_rate_codes ::
  "revision \<Rightarrow> jsstring list option \<Rightarrow> jsstring list \<Rightarrow> jsstring list" where
  "request_rate_codes v supplied defaults =
     (case MAX_RATE_CODES v of
        Some cap \<Rightarrow> slice (merge_rate_codes supplied defaults) 0 cap
      | None \<Rightarrow> merge_rate_codes supplied defaults)"

text \<open>
  The parameters of one pricing request, in the order the source assigns them.
  \<open>String\<close> is the conversion of a number to a string of the language.
\<close>

definition when_truthy :: "jsstring \<Rightarrow> jsstring option \<Rightarrow> (jsstring \<times> jsstring) list" where
  "when_truthy key v = (case v of Some s \<Rightarrow> if s \<noteq> [] then [(key, s)] else [] | None \<Rightarrow> [])"

definition requestParams ::
  "revision \<Rightarrow> ('n \<Rightarrow> jsstring) \<Rightarrow> 'n GetHotelOffers \<Rightarrow> jsstring list \<Rightarrow> jsstring list
     \<Rightarrow> (jsstring \<times> jsstring) list" where
  "requestParams v String params codes batch =
     [(js ''hotelIds'', join (js '','') batch),
      (js ''adults'', (case adults params of Some n \<Rightarrow> String n | None \<Rightarrow> js ''1'')),
      (js ''checkInDate'', checkInDate params),
      (js ''checkOutDate'', checkOutDate params),
      (js ''roomQuantity'', (case roomQuantity params of Some n \<Rightarrow> String n | None \<Rightarrow> js ''1'')),
      (js ''paymentPolicy'',
         (case paymentPolicy params of Some p \<Rightarrow> p | None \<Rightarrow> default_paymentPolicy v)),
      (js ''includeClosed'', js ''false''),
      (js ''view'', js ''FULL''),
      (js ''bestRateOnly'', js ''false'')]
     @ when_truthy (js ''currency'') (currency params)
     @ when_truthy (js ''priceRange'') (priceRange params)
     @ when_truthy (js ''boardType'') (boardType params)
     @ when_truthy (js ''lang'') (lang params)
     @ (if codes \<noteq> [] then [(js ''rateCodes'', join (js '','') codes)] else [])"

text \<open>
  The state of one query: the accumulated result, the events so far and the lines
  written to the console.
\<close>

record ('j, 'n) run =
  allResults :: "'j HotelOffer list"
  trace :: "'n event list"
  console :: "'j console_line list"

text \<open>
  The body of the loop over the batches. The \<open>try\<close> block is the call and, on a
  response with data, the enrichment; the \<open>catch\<close> block logs an axios error and
  swallows every error; the pause follows unless the batch is the last one.
\<close>

definition batch_try ::
  "revision \<Rightarrow> ('j, 'n) upstream \<Rightarrow> nat \<Rightarrow> (jsstring \<times> jsstring) list \<Rightarrow> ('j, 'n) run
     \<Rightarrow> 'j js_error + ('j, 'n) run" where
  "batch_try v up batchIdx request st =
     (case hotel_offers up batchIdx request of
        Inl err \<Rightarrow> Inl err
      | Inr response \<Rightarrow>
          (case response of
             Some data \<Rightarrow>
               if data \<noteq> []
               then Inr (st\<lparr>allResults := allResults st @ enriched_available v data\<rparr>)
               else Inr st
           | None \<Rightarrow> Inr st))"

definition batch_catch :: "nat \<Rightarrow> 'j js_error \<Rightarrow> ('j, 'n) run \<Rightarrow> ('j, 'n) run" where
  "batch_catch batchIdx err st =
     (if isAxiosError err
      then st\<lparr>console := console st @
             [BatchError (batchIdx + 1)
                (case response_data err of Some d \<Rightarrow> Inl d | None \<Rightarrow> Inr (message err))]\<rparr>
      else st)"

definition batch_body ::
  "revision \<Rightarrow> ('n \<Rightarrow> jsstring) \<Rightarrow> ('j, 'n) upstream \<Rightarrow> 'n GetHotelOffers
     \<Rightarrow> jsstring list \<Rightarrow> jsstring list list \<Rightarrow> nat \<Rightarrow> ('j, 'n) run \<Rightarrow> ('j, 'n) run" where
  "batch_body v String up params codes batches batchIdx st =
     (let batch = batches ! batchIdx;
          request = requestParams v String params codes batch;
          called = st\<lparr>trace := trace st @ [Call (HotelOffers request)]\<rparr>;
          after = (case batch_try v up batchIdx request called of
                     Inr st' \<Rightarrow> st'
                   | Inl err \<Rightarrow> batch_catch batchIdx err called)
      in if batchIdx < length batches - 1
         then after\<lparr>trace := trace after @ [Delay 100]\<rparr>
         else after)"

function offers_loop ::
  "revision \<Rightarrow> ('n \<Rightarrow> jsstring) \<Rightarrow> ('j, 'n) upstream \<Rightarrow> 'n GetHotelOffers
     \<Rightarrow> jsstring list \<Rightarrow> jsstring list list \<Rightarrow> nat \<Rightarrow> ('j, 'n) run \<Rightarrow> ('j, 'n) run" where
  "offers_loop v String up params codes batches batchIdx st =
     (if batchIdx < length batches
      then offers_loop v String up params codes batches (batchIdx + 1)
             (batch_body v String up params codes batches batchIdx st)
      else st)"
  by pat_completeness auto
termination
  by (relation "measure (\<lambda>(v, String, up, params, codes, batches, batchIdx, st).
                  length batches - batchIdx)") auto

declare offers_loop.simps [simp del]

definition getHotelOffers ::
  "revision \<Rightarrow> ('n \<Rightarrow> jsstring) \<Rightarrow> AmadeusClient \<Rightarrow> ('j, 'n) upstream
     \<Rightarrow> 'n GetHotelOffers \<Rightarrow> ('j, 'n) run" where
  "getHotelOffers v String client up params =
     (let allIds = hotelIds params;
          batches = make_batches allIds;
          codes = request_rate_codes v (rateCodes params) (defaultSupplierCodes client)
      in offers_loop v String up params codes batches 0
           \<lparr>allResults = [], trace = [], console = []\<rparr>)"

section \<open>The other operations of the client\<close>

text \<open>
  \<^verbatim>\<open>
  async searchHotelsByCity(params) {
    const query = ...;
    const response = await this.http.get("/v1/reference-data/locations/hotels/by-city", ...);
    return response.data.data ?? [];
  }
  async getHotelOfferById(params) { ...; return response.data.data; }
  async getHotelContent(hotelId) {
    try {
      const response = await this.http.get(`/v1/reference-data/locations/hotels/${hotelId}`);
      return response.data?.data ?? null;
    } catch (err) {
      if (isAxiosError(err)) console.error(..., err.message);
      return null;
    }
  }
  \<close>
  Each returns its result, or the error it throws, with the events it caused.
\<close>

definition searchHotelsByCity ::
  "('j, 'n) upstream \<Rightarrow> 'n SearchHotelsByCity \<Rightarrow> ('j js_error + 'j list) \<times> 'n event list" where
  "searchHotelsByCity up params =
     (case hotels_by_city up params of
        Inl err \<Rightarrow> Inl err
      | Inr data \<Rightarrow> Inr (case data of Some hs \<Rightarrow> hs | None \<Rightarrow> []),
      [Call (HotelsByCity params)])"

definition searchHotelsByGeocode ::
  "('j, 'n) upstream \<Rightarrow> 'n SearchHotelsByGeocode \<Rightarrow> ('j js_error + 'j list) \<times> 'n event list" where
  "searchHotelsByGeocode up params =
     (case hotels_by_geocode up params of
        Inl err \<Rightarrow> Inl err
      | Inr data \<Rightarrow> Inr (case data of Some hs \<Rightarrow> hs | None \<Rightarrow> []),
      [Call (HotelsByGeocode params)])"

definition getHotelOfferById ::
  "('j, 'n) upstream \<Rightarrow> GetHotelOfferById \<Rightarrow> ('j js_error + 'j) \<times> 'n event list" where
  "getHotelOfferById up params = (hotel_offer_by_id up params, [Call (HotelOfferById params)])"

definition getHotelContent ::
  "('j, 'n) upstream \<Rightarrow> jsstring
     \<Rightarrow> ('j js_error + 'j option) \<times> 'n event list \<times> 'j console_line list" where
  "getHotelContent up hotelId =
     (case hotel_content up hotelId of
        Inr content \<Rightarrow> (Inr content, [Call (HotelContent hotelId)], [])
      | Inl err \<Rightarrow>
          (Inr None, [Call (HotelContent hotelId)],
           if isAxiosError err then [ContentUnavailable hotelId (message err)] else []))"

section \<open>Query surface: the tool handler\<close>

text \<open>
  The handler of \<open>index.ts\<close> receives the name of a tool and its arguments
  (\<open>const { name, arguments: args } = request.params\<close>). The \<open>arguments\<close> member of
  a request is optional; when it is there it is an unchecked JSON object that the handler
  casts to the parameter interface of the tool. Whatever the interface says, a field may
  be absent at run time; the handler tests the required ones. A call with arguments is
  modelled with its required fields as options and the optional fields as the record of
  the interface; for the fields the handler tests by truthiness, \<open>None\<close> stands for
  \<open>undefined\<close> and for \<open>null\<close>, which the test does not tell apart, while a
  coordinate is tested with \<open>=== undefined\<close>, so there \<open>None\<close> is \<open>undefined\<close>
  only. A call whose \<open>arguments\<close> member is omitted is \<open>no_arguments\<close> with the name
  of the tool: \<open>args\<close> is then \<open>undefined\<close>, and reading a field of it throws a
  \<open>TypeError\<close>.

  The handler throws an \<open>McpError\<close> or returns a result whose text is JSON. The model
  keeps the value the text is made from, not its projection to the fields shown.
\<close>

datatype 'n tool_call =
    search_hotels_by_city "jsstring option" "'n search_filters"
  | search_hotels_by_geocode "'n nullable option" "'n nullable option" "'n search_filters"
  | get_hotel_offers "jsstring list option" "jsstring option" "jsstring option" "'n offer_options"
  | get_hotel_offer_details "jsstring option" "jsstring option"
  | get_hotel_content "jsstring option"
  | list_supplier_codes
  | other_tool jsstring
  | no_arguments jsstring

datatype ErrorCode = InvalidParams | MethodNotFound | InternalError

datatype McpError = McpError ErrorCode jsstring

datatype 'j tool_result =
    Hotels "'j list"
  | PricedHotels "jsstring list" nat "'j HotelOffer list"
  | OfferDetails 'j
  | Content jsstring 'j
  | NoContent
  | SupplierCodes "jsstring list" "(jsstring \<times> jsstring \<times> jsstring \<times> bool) list"
  | ApiError "nat option" "'j option"

datatype 'j thrown = Thrown "'j js_error" | ThrownMcp McpError

text \<open>
  \<^verbatim>\<open>
  } catch (err) {
    if (isAxiosError(err)) return { content: [...status, details...], isError: true };
    if (err instanceof McpError) throw err;
    throw new McpError(ErrorCode.InternalError, (err as Error).message);
  }
  \<close>
\<close>

text \<open>
  The messages of the \<open>TypeError\<close> thrown when a property of \<open>undefined\<close> is read
  (\<open>params.cityCode\<close>) or destructured (\<open>const { hotelId } = args\<close>), in the
  wording of V8, the engine of Node. The code unit 39 is the single quote.
\<close>

definition cannot_read :: "jsstring \<Rightarrow> jsstring" where
  "cannot_read property =
     js ''Cannot read properties of undefined (reading '' @ [39] @ property @ [39] @ js '')''"

definition cannot_destructure :: "jsstring \<Rightarrow> jsstring \<Rightarrow> jsstring" where
  "cannot_destructure property variable =
     js ''Cannot destructure property '' @ [39] @ property @ [39] @ js '' of '' @ [39]
       @ variable @ [39] @ js '' as it is undefined.''"

fun handler_catch :: "'j thrown \<Rightarrow> McpError + 'j tool_result" where
  "handler_catch (Thrown err) =
     (if isAxiosError err then Inr (ApiError (response_status err) (response_data err))
      else Inl (McpError InternalError (message err)))"
| "handler_catch (ThrownMcp err) = Inl err"

fun handler_try ::
  "revision \<Rightarrow> ('n \<Rightarrow> jsstring) \<Rightarrow> AmadeusClient \<Rightarrow> ('j, 'n) upstream \<Rightarrow> 'n tool_call
     \<Rightarrow> ('j thrown + 'j tool_result) \<times> 'n event list \<times> 'j console_line list" where
  "handler_try v String amadeus up (search_hotels_by_city city filters) =
     (case city of
        None \<Rightarrow> (Inl (ThrownMcp (McpError InvalidParams (js ''cityCode is required''))), [], [])
      | Some c \<Rightarrow>
          if c = [] then (Inl (ThrownMcp (McpError InvalidParams (js ''cityCode is required''))), [], [])
          else
            (case searchHotelsByCity up (search_filters.extend filters (SearchHotelsByCity.fields c)) of
               (Inl err, events) \<Rightarrow> (Inl (Thrown err), events, [])
             | (Inr hotels, events) \<Rightarrow> (Inr (Hotels hotels), events, [])))"
| "handler_try v String amadeus up (search_hotels_by_geocode lat lon filters) =
     (case (lat, lon) of
        (Some la, Some lo) \<Rightarrow>
          (case searchHotelsByGeocode up
                  (search_filters.extend filters (SearchHotelsByGeocode.fields la lo)) of
             (Inl err, events) \<Rightarrow> (Inl (Thrown err), events, [])
           | (Inr hotels, events) \<Rightarrow> (Inr (Hotels hotels), events, []))
      | _ \<Rightarrow>
          (Inl (ThrownMcp (McpError InvalidParams (js ''latitude and longitude are required''))),
           [], []))"
| "handler_try v String amadeus up (get_hotel_offers ids checkIn checkOut options) =
     (case (ids, checkIn, checkOut) of
        (Some allIds, Some ci, Some co) \<Rightarrow>
          if allIds = [] \<or> ci = [] \<or> co = []
          then (Inl (ThrownMcp (McpError InvalidParams
                  (js ''hotelIds, checkInDate, and checkOutDate are required''))), [], [])
          else
            (let st = getHotelOffers v String amadeus up
                        (offer_options.extend options (GetHotelOffers.fields allIds ci co))
             in (Inr (PricedHotels (getDefaultSupplierCodes amadeus) (length allIds) (allResults st)),
                 trace st, console st))
      | _ \<Rightarrow>
          (Inl (ThrownMcp (McpError InvalidParams
             (js ''hotelIds, checkInDate, and checkOutDate are required''))), [], []))"
| "handler_try v String amadeus up (get_hotel_offer_details offer language) =
     (case offer of
        None \<Rightarrow> (Inl (ThrownMcp (McpError InvalidParams (js ''offerId is required''))), [], [])
      | Some oid \<Rightarrow>
          if oid = [] then (Inl (ThrownMcp (McpError InvalidParams (js ''offerId is required''))), [], [])
          else
            (case getHotelOfferById up \<lparr>offerId = oid, offer_lang = language\<rparr> of
               (Inl err, events) \<Rightarrow> (Inl (Thrown err), events, [])
             | (Inr details, events) \<Rightarrow> (Inr (OfferDetails details), events, [])))"
| "handler_try v String amadeus up (get_hotel_content hotel_id) =
     (case hotel_id of
        None \<Rightarrow> (Inl (ThrownMcp (McpError InvalidParams (js ''hotelId is required''))), [], [])
      | Some hid \<Rightarrow>
          if hid = [] then (Inl (ThrownMcp (McpError InvalidParams (js ''hotelId is required''))), [], [])
          else
            (case getHotelContent up hid of
               (Inl err, events, lines) \<Rightarrow> (Inl (Thrown err), events, lines)
             | (Inr None, events, lines) \<Rightarrow> (Inr NoContent, events, lines)
             | (Inr (Some content), events, lines) \<Rightarrow> (Inr (Content hid content), events, lines)))"
| "handler_try v String amadeus up list_supplier_codes =
     (Inr (SupplierCodes (getDefaultSupplierCodes amadeus)
             (map (\<lambda>(code, info). (code, name info, description info,
                                     code \<in> set (getDefaultSupplierCodes amadeus)))
                  (SUPPLIER_CODES v))), [], [])"
| "handler_try v String amadeus up (other_tool tool) =
     (Inl (ThrownMcp (McpError MethodNotFound (js ''Unknown tool: '' @ tool))), [], [])"
| "handler_try v String amadeus up (no_arguments tool) =
     (if tool = js ''search_hotels_by_city''
      then (Inl (Thrown (Error (cannot_read (js ''cityCode'')))), [], [])
      else if tool = js ''search_hotels_by_geocode''
      then (Inl (Thrown (Error (cannot_read (js ''latitude'')))), [], [])
      else if tool = js ''get_hotel_offers''
      then (Inl (Thrown (Error (cannot_read (js ''hotelIds'')))), [], [])
      else if tool = js ''get_hotel_offer_details''
      then (Inl (Thrown (Error (cannot_read (js ''offerId'')))), [], [])
      else if tool = js ''get_hotel_content''
      then (Inl (Thrown (Error (cannot_destructure (js ''hotelId'') (js ''args'')))), [], [])
      else if tool = js ''list_supplier_codes''
      then (Inr (SupplierCodes (getDefaultSupplierCodes amadeus)
                   (map (\<lambda>(code, info). (code, name info, description info,
                                           code \<in> set (getDefaultSupplierCodes amadeus)))
                        (SUPPLIER_CODES v))), [], [])
      else (Inl (ThrownMcp (McpError MethodNotFound (js ''Unknown tool: '' @ tool))), [], []))"

definition call_tool ::
  "revision \<Rightarrow> ('n \<Rightarrow> jsstring) \<Rightarrow> AmadeusClient \<Rightarrow> ('j, 'n) upstream \<Rightarrow> 'n tool_call
     \<Rightarrow> (McpError + 'j tool_result) \<times> 'n event list \<times> 'j console_line list" where
  "call_tool v String amadeus up request =
     (case handler_try v String amadeus up request of
        (Inl err, events, lines) \<Rightarrow> (handler_catch err, events, lines)
      | (Inr res, events, lines) \<Rightarrow> (Inr res, events, lines))"

text \<open>The upstream calls among the events of a run.\<close>

fun calls :: "'n event list \<Rightarrow> 'n upstream_call list" where
  "calls [] = []"
| "calls (Call c # es) = c # calls es"
| "calls (Delay ms # es) = calls es"

section \<open>What one batch contributes\<close>

text \<open>
  The hotels a batch adds to the result, read off the outcome of its call: the enriched
  hotels with inventory of a response with data, nothing otherwise.
\<close>

definition chunk_result ::
  "revision \<Rightarrow> ('j, 'n) upstream \<Rightarrow> nat \<Rightarrow> (jsstring \<times> jsstring) list \<Rightarrow> 'j HotelOffer list" where
  "chunk_result v up k request =
     (case hotel_offers up k request of
        Inl err \<Rightarrow> []
      | Inr response \<Rightarrow> (case response of Some data \<Rightarrow> enriched_available v data | None \<Rightarrow> []))"


section \<open>Example inputs\<close>

text \<open>
  A client, a list of \<open>n\<close> hotel identifiers and a pricing query over them, with
  naturals for the numbers and their decimal notation for \<open>String\<close>.
\<close>

definition example_client :: AmadeusClient where
  "example_client = \<lparr>clientId = js ''client'', clientSecret = js ''secret'',
     guestOfficeId = None,
     baseUrl = js ''https://travel.api.amadeus.com'',
     authUrl = js ''https://travel.api.amadeus.com/v1/security/oauth2/token'',
     defaultSupplierCodes = Object_keys (SUPPLIER_CODES part_000)\<rparr>"

definition example_ids :: "nat \<Rightarrow> jsstring list" where
  "example_ids n = map (\<lambda>i. js ''HOTEL'' @ [48 + i div 10, 48 + i mod 10]) [0..<n]"

definition example_params :: "nat \<Rightarrow> nat GetHotelOffers" where
  "example_params n = \<lparr>adults = Some 2, roomQuantity = None, currency = None, priceRange = None,
     rateCodes = None, paymentPolicy = None, boardType = None, lang = None,
     hotelIds = example_ids n, checkInDate = js ''2026-03-01'', checkOutDate = js ''2026-03-04''\<rparr>"

fun decimal :: "nat \<Rightarrow> jsstring" where
  "decimal n = (if n < 10 then [48 + n] else decimal (n div 10) @ [48 + n mod 10])"

declare decimal.simps [simp del]

definition no_data :: "('j, nat) upstream" where
  "no_data = \<lparr>hotels_by_city = (\<lambda>q. Inr None), hotels_by_geocode = (\<lambda>q. Inr None),
     hotel_offers = (\<lambda>k q. Inr None), hotel_offer_by_id = (\<lambda>q. Inl (Error [])),
     hotel_content = (\<lambda>h. Inr None)\<rparr>"


text \<open>
  A hotel API that answers the first and the third pricing call of a query and fails the
  second with a server error. The hotels carry a number as identity.
\<close>

definition example_offer :: "jsstring option \<Rightarrow> nat Offer" where
  "example_offer code =
     \<lparr>rateCode = code, supplierName = None, isNegotiatedRate = None, offer_fields = 0\<rparr>"

definition example_hotel :: "nat \<Rightarrow> bool \<Rightarrow> nat Offer list option \<Rightarrow> nat HotelOffer" where
  "example_hotel ident avail os =
     \<lparr>hotel = ident, available = avail, offers = os, hotel_fields = 0\<rparr>"

definition first_response :: "nat HotelOffer list" where
  "first_response =
     [example_hotel 1 True (Some [example_offer (Some (js '' APS ''))]),
      example_hotel 2 False (Some [example_offer None]),
      example_hotel 3 True None,
      example_hotel 4 True (Some [])]"

definition third_response :: "nat HotelOffer list" where
  "third_response =
     [example_hotel 5 True (Some [example_offer (Some (js ''XYZ'')), example_offer None])]"

definition server_error :: "nat js_error" where
  "server_error = AxiosError (js ''Request failed with status code 500'') (Some (500, None))"

definition second_call_fails :: "(nat, nat) upstream" where
  "second_call_fails = \<lparr>
     hotels_by_city = (\<lambda>q. Inr None),
     hotels_by_geocode = (\<lambda>q. Inr None),
     hotel_offers = (\<lambda>k request.
        if k = 0 then Inr (Some first_response)
        else if k = 1 then Inl server_error
        else Inr (Some third_response)),
     hotel_offer_by_id = (\<lambda>q. Inl server_error),
     hotel_content = (\<lambda>h. Inl server_error)\<rparr>"

text \<open>The optional fields of the example query, and what the two answered calls of the
  example contribute.\<close>

definition example_options :: "nat offer_options" where
  "example_options = \<lparr>adults = Some 2, roomQuantity = None, currency = None, priceRange = None,
     rateCodes = None, paymentPolicy = None, boardType = None, lang = None\<rparr>"

definition first_enriched :: "nat HotelOffer list" where
  "first_enriched =
     [\<lparr>hotel = 1, available = True,
       offers = Some [\<lparr>rateCode = Some (js '' APS ''), supplierName = Some (js ''Virtuoso''),
                       isNegotiatedRate = Some True, offer_fields = 0\<rparr>],
       hotel_fields = 0\<rparr>]"

definition third_enriched :: "nat HotelOffer list" where
  "third_enriched =
     [\<lparr>hotel = 5, available = True,
       offers = Some [\<lparr>rateCode = Some (js ''XYZ''), supplierName = None,
                       isNegotiatedRate = Some False, offer_fields = 0\<rparr>,
                      \<lparr>rateCode = None, supplierName = None,
                       isNegotiatedRate = Some False, offer_fields = 0\<rparr>],
       hotel_fields = 0\<rparr>]"

text \<open>A token endpoint that grants a token valid for 1799 seconds.\<close>

definition example_endpoint :: "token_post \<Rightarrow> nat js_error + AmadeusTokenResponse" where
  "example_endpoint post = Inr \<lparr>access_token = js ''fresh'', expires_in = 1799\<rparr>"

text \<open>Search filters for the examples, and a hotel API that has content for every hotel.\<close>

definition example_filters :: "nat search_filters" where
  "example_filters = \<lparr>radius = Some 500, radiusUnit = None, chainCodes = None,
     amenities = None, ratings = Some [js ''4'', js ''5''], hotelSource = None\<rparr>"

definition content_available :: "(nat, nat) upstream" where
  "content_available = second_call_fails\<lparr>hotel_content := (\<lambda>h. Inr (Some 7))\<rparr>"

text \<open>An environment whose rate code list names one code twice.\<close>

definition duplicate_environment :: environment where
  "duplicate_environment = \<lparr>AMADEUS_ENV = None,
     AMADEUS_CLIENT_ID = Some (js ''client''), AMADEUS_CLIENT_SECRET = Some (js ''secret''),
     AMADEUS_GUEST_OFFICE_ID = None, AMADEUS_RATE_CODES = Some (js ''APS,APS'')\<rparr>"

text \<open>The example query with rate codes of the caller, one of them twice.\<close>

definition coded_params :: "nat GetHotelOffers" where
  "coded_params = (example_params 45)\<lparr>rateCodes := Some [js ''ZZZ'', js ''APS'', js ''ZZZ'']\<rparr>"

section \<open>Partitioning into batches\<close>

lemma batch_count_step:
  assumes "i < (L::nat)"
  shows "(L - i + 19) div 20 = Suc ((L - (i + 20) + 19) div 20)"
proof (cases "i + 20 \<le> L")
  case True
  then obtain d where d: "L = i + 20 + d"
    by (auto simp: le_iff_add)
  show ?thesis unfolding d by simp
next
  case False
  with assms have "L - (i + 20) = 0" and lo: "20 \<le> L - i + 19" and hi: "L - i + 19 < 40"
    by simp_all
  moreover from lo hi have "(L - i + 19) div 20 = 1"
    by (simp add: div_nat_eqI)
  ultimately show ?thesis by simp
qed

lemma batches_loop_closed:
  "batches_loop xs i acc =
     acc @ map (\<lambda>k. take 20 (drop (i + 20 * k) xs)) [0..<(length xs - i + 19) div 20]"
proof (induction xs i acc rule: batches_loop.induct)
  case (1 xs i acc)
  show ?case
  proof (cases "i < length xs")
    case False
    then show ?thesis by (subst batches_loop.simps) simp
  next
    case True
    define n where "n = (length xs - (i + 20) + 19) div 20"
    from True have cnt: "(length xs - i + 19) div 20 = Suc n"
      unfolding n_def by (rule batch_count_step)
    have upt: "[0..<Suc n] = 0 # map Suc [0..<n]"
      by (simp only: map_Suc_upt upt_conv_Cons zero_less_Suc if_True)
    have "batches_loop xs i acc =
            batches_loop xs (i + BATCH_SIZE) (acc @ [slice xs i (i + BATCH_SIZE)])"
      using True by (subst batches_loop.simps) simp
    also have "\<dots> = (acc @ [take 20 (drop i xs)]) @
                 map (\<lambda>k. take 20 (drop (i + 20 + 20 * k) xs)) [0..<n]"
      using "1.IH" [OF True] by (simp add: BATCH_SIZE_def slice_def n_def)
    also have "\<dots> = acc @ map (\<lambda>k. take 20 (drop (i + 20 * k) xs)) [0..<Suc n]"
      unfolding upt by (simp add: comp_def ac_simps)
    finally show ?thesis by (simp only: cnt)
  qed
qed

lemma make_batches_closed:
  "make_batches xs = map (\<lambda>k. take 20 (drop (20 * k) xs)) [0..<(length xs + 19) div 20]"
  by (simp add: make_batches_def batches_loop_closed)

lemma batches_cover: "L \<le> 20 * ((L + 19) div 20)" for L :: nat
proof -
  have "L + 19 = 20 * ((L + 19) div 20) + (L + 19) mod 20" by simp
  moreover have "(L + 19) mod 20 \<le> 19" by simp
  ultimately show ?thesis by linarith
qed

lemma ceiling_div_20: "\<lceil>real L / 20\<rceil> = int ((L + 19) div 20)"
proof -
  define q where "q = (L + 19) div 20"
  have a: "L \<le> 20 * q" unfolding q_def by (rule batches_cover)
  have b: "20 * q \<le> L + 19" unfolding q_def by simp
  from of_nat_mono [OF a, where 'a = real] have a': "real L \<le> 20 * real q" by simp
  from of_nat_mono [OF b, where 'a = real] have b': "20 * real q \<le> real L + 19" by simp
  have "\<lceil>real L / 20\<rceil> = int q"
  proof (rule ceiling_unique)
    from b' show "of_int (int q) - 1 < real L / 20" by simp
    from a' show "real L / 20 \<le> of_int (int q)" by simp
  qed
  then show ?thesis by (simp add: q_def)
qed

lemma calls_append: "calls (xs @ ys) = calls xs @ calls ys"
  by (induction xs rule: calls.induct) simp_all

lemma concat_chunks: "concat (map (\<lambda>k. take 20 (drop (20 * k) xs)) [0..<n]) = take (20 * n) xs"
proof (induction n)
  case 0
  show ?case by simp
next
  case (Suc n)
  have "take (20 * Suc n) xs = take (20 * n) xs @ take 20 (drop (20 * n) xs)"
    by (simp add: take_add [symmetric] add.commute)
  with Suc show ?case by simp
qed

lemma batch_start: "k < (L + 19) div 20 \<Longrightarrow> 20 * k < L" for L :: nat
proof -
  assume "k < (L + 19) div 20"
  then have "Suc k \<le> (L + 19) div 20" by simp
  then have "20 * Suc k \<le> 20 * ((L + 19) div 20)" by (rule mult_le_mono2)
  also have "\<dots> \<le> L + 19" by simp
  finally show ?thesis by simp
qed

lemma concat_make_batches: "concat (make_batches xs) = xs"
  by (simp add: make_batches_closed concat_chunks batches_cover)

lemma length_make_batches: "length (make_batches xs) = (length xs + 19) div 20"
  by (simp add: make_batches_closed)

lemma nth_make_batches:
  "k < length (make_batches xs) \<Longrightarrow> make_batches xs ! k = slice xs (20 * k) (20 * k + 20)"
  by (simp add: make_batches_closed slice_def)

lemma batch_bounds:
  assumes "b \<in> set (make_batches xs)"
  shows "length b \<le> 20" and "b \<noteq> []"
proof -
  from assms obtain k where k: "k < (length xs + 19) div 20" and b: "b = take 20 (drop (20 * k) xs)"
    by (auto simp: make_batches_closed)
  show "length b \<le> 20" by (simp add: b)
  from batch_start [OF k] show "b \<noteq> []" by (simp add: b)
qed

section \<open>The loop over the batches\<close>

lemma enriched_available_Nil: "enriched_available v [] = []"
  by (simp add: enriched_available_def)

lemma batch_body_results:
  "allResults (batch_body v S up p codes bs k st) =
     allResults st @ chunk_result v up k (requestParams v S p codes (bs ! k))"
  by (simp add: batch_body_def batch_try_def batch_catch_def chunk_result_def Let_def
        enriched_available_Nil split: sum.splits option.splits)

lemma batch_body_calls:
  "calls (trace (batch_body v S up p codes bs k st)) =
     calls (trace st) @ [HotelOffers (requestParams v S p codes (bs ! k))]"
  by (simp add: batch_body_def batch_try_def batch_catch_def Let_def calls_append
        split: sum.splits option.splits)

lemma offers_loop_results:
  "allResults (offers_loop v S up p codes bs k st) =
     allResults st @
     concat (map (\<lambda>i. chunk_result v up i (requestParams v S p codes (bs ! i))) [k..<length bs])"
proof (induction v S up p codes bs k st rule: offers_loop.induct)
  case (1 v S up p codes bs k st)
  show ?case
  proof (cases "k < length bs")
    case True
    then show ?thesis
      using "1.IH" [OF True]
      by (subst offers_loop.simps) (simp add: batch_body_results upt_conv_Cons)
  next
    case False
    then show ?thesis by (subst offers_loop.simps) simp
  qed
qed

lemma offers_loop_calls:
  "calls (trace (offers_loop v S up p codes bs k st)) =
     calls (trace st) @ map (\<lambda>i. HotelOffers (requestParams v S p codes (bs ! i))) [k..<length bs]"
proof (induction v S up p codes bs k st rule: offers_loop.induct)
  case (1 v S up p codes bs k st)
  show ?case
  proof (cases "k < length bs")
    case True
    then show ?thesis
      using "1.IH" [OF True]
      by (subst offers_loop.simps) (simp add: batch_body_calls upt_conv_Cons)
  next
    case False
    then show ?thesis by (subst offers_loop.simps) simp
  qed
qed

lemma map_nth_batches: "map (\<lambda>i. f (xs ! i)) [0..<length xs] = map f xs"
proof -
  have "map f xs = map f (map ((!) xs) [0..<length xs])"
    by (simp only: map_nth)
  also have "\<dots> = map (\<lambda>i. f (xs ! i)) [0..<length xs]"
    by (simp only: map_map comp_def)
  finally show ?thesis by (rule sym)
qed

lemma getHotelOffers_calls:
  "calls (trace (getHotelOffers v S client up p)) =
     map (\<lambda>batch. HotelOffers (requestParams v S p
                      (request_rate_codes v (rateCodes p) (defaultSupplierCodes client)) batch))
         (make_batches (hotelIds p))"
proof -
  have "calls (trace (getHotelOffers v S client up p)) =
          map (\<lambda>i. HotelOffers (requestParams v S p
                      (request_rate_codes v (rateCodes p) (defaultSupplierCodes client))
                      (make_batches (hotelIds p) ! i)))
              [0..<length (make_batches (hotelIds p))]"
    by (simp add: getHotelOffers_def Let_def offers_loop_calls)
  also have "\<dots> = map (\<lambda>batch. HotelOffers (requestParams v S p
                      (request_rate_codes v (rateCodes p) (defaultSupplierCodes client)) batch))
         (make_batches (hotelIds p))"
    by (rule map_nth_batches)
  finally show ?thesis .
qed

section \<open>The merged rate codes\<close>

lemma set_add_distinct: "distinct acc \<Longrightarrow> distinct (set_add acc x)"
  by (simp add: set_add_def)

lemma set_set_add: "set (set_add acc x) = insert x (set acc)"
  by (auto simp: set_add_def)

lemma foldl_set_add_distinct: "distinct acc \<Longrightarrow> distinct (foldl set_add acc xs)"
  by (induction xs arbitrary: acc) (simp_all add: set_add_distinct)

lemma set_foldl_set_add: "set (foldl set_add acc xs) = set acc \<union> set xs"
  by (induction xs arbitrary: acc) (simp_all add: set_set_add)

lemma distinct_new_Set: "distinct (new_Set xs)"
  by (simp add: new_Set_def foldl_set_add_distinct)

lemma set_new_Set: "set (new_Set xs) = set xs"
  by (simp add: new_Set_def set_foldl_set_add)

lemma set_add_member: "x \<in> set acc \<Longrightarrow> set_add acc x = acc"
  by (simp add: set_add_def)

lemma set_add_new: "x \<notin> set acc \<Longrightarrow> set_add acc x = acc @ [x]"
  by (simp add: set_add_def)

lemma foldl_set_add_split:
  "foldl set_add acc xs = acc @ filter (\<lambda>x. x \<notin> set acc) (foldl set_add [] xs)"
proof (induction xs arbitrary: acc)
  case Nil
  show ?case by simp
next
  case (Cons x xs)
  have one: "foldl set_add [x] xs = x # filter (\<lambda>y. y \<noteq> x) (foldl set_add [] xs)"
    using Cons.IH [of "[x]"] by simp
  have start: "set_add [] x = [x]"
    by (simp add: set_add_def)
  show ?case
  proof (cases "x \<in> set acc")
    case True
    have "filter (\<lambda>y. y \<notin> set acc) (filter (\<lambda>y. y \<noteq> x) zs) = filter (\<lambda>y. y \<notin> set acc) zs" for zs
      using True by (induction zs) auto
    with True show ?thesis
      using Cons.IH [of acc] by (simp add: set_add_member start one del: filter_filter)
  next
    case False
    have "filter (\<lambda>y. y \<notin> set (acc @ [x])) zs = filter (\<lambda>y. y \<notin> set acc) (filter (\<lambda>y. y \<noteq> x) zs)" for zs
      by (induction zs) auto
    with False show ?thesis
      using Cons.IH [of "acc @ [x]"] by (simp add: set_add_new start one del: filter_filter)
  qed
qed

lemma new_Set_Cons: "new_Set (x # xs) = x # filter (\<lambda>y. y \<noteq> x) (new_Set xs)"
proof -
  have "set_add [] x = [x]" by (simp add: set_add_def)
  then show ?thesis
    using foldl_set_add_split [of "[x]" xs] by (simp add: new_Set_def)
qed

lemma new_Set_append:
  "new_Set (xs @ ys) = new_Set xs @ filter (\<lambda>y. y \<notin> set xs) (new_Set ys)"
  using foldl_set_add_split [of "foldl set_add [] xs" ys]
  by (simp add: new_Set_def set_foldl_set_add)

lemma remdups_snoc: "remdups (ys @ [x]) = filter (\<lambda>y. y \<noteq> x) (remdups ys) @ [x]"
  by (induction ys) auto

lemma new_Set_first_occurrences: "new_Set xs = rev (remdups (rev xs))"
proof (induction xs)
  case Nil
  show ?case by (simp add: new_Set_def)
next
  case (Cons x xs)
  then show ?case
    by (simp add: new_Set_Cons remdups_snoc rev_filter)
qed

lemma new_Set_Nil: "new_Set [] = []"
  by (simp add: new_Set_def)

lemma merge_rate_codes_split:
  "merge_rate_codes supplied defaults =
     new_Set (caller_codes supplied) @
     filter (\<lambda>d. d \<notin> set (caller_codes supplied)) (new_Set defaults)"
  by (simp add: merge_rate_codes_def new_Set_append)

lemma distinct_request_rate_codes: "distinct (request_rate_codes v supplied defaults)"
  by (simp add: request_rate_codes_def merge_rate_codes_def slice_def distinct_new_Set
        split: option.splits)

lemma capped_rate_codes:
  assumes "MAX_RATE_CODES v = Some cap"
  shows "request_rate_codes v supplied defaults =
     take cap (new_Set (caller_codes supplied)) @
     take (cap - length (new_Set (caller_codes supplied)))
       (filter (\<lambda>d. d \<notin> set (caller_codes supplied)) (new_Set defaults))"
  using assms by (simp add: request_rate_codes_def slice_def merge_rate_codes_split)

lemma caller_codes_first:
  assumes "d \<in> set (request_rate_codes v supplied defaults)"
    and "d \<notin> set (caller_codes supplied)"
  shows "set (caller_codes supplied) \<subseteq> set (request_rate_codes v supplied defaults)"
proof (cases "MAX_RATE_CODES v")
  case None
  then show ?thesis
    by (simp add: request_rate_codes_def merge_rate_codes_def set_new_Set)
next
  case (Some cap)
  let ?A = "new_Set (caller_codes supplied)"
  let ?B = "filter (\<lambda>d. d \<notin> set (caller_codes supplied)) (new_Set defaults)"
  note sent = capped_rate_codes [OF Some, of supplied defaults]
  have "d \<notin> set (take cap ?A)"
    using assms(2) set_new_Set [of "caller_codes supplied"] by (auto dest: in_set_takeD)
  with assms(1) have "d \<in> set (take (cap - length ?A) ?B)"
    by (simp add: sent)
  then have "cap - length ?A \<noteq> 0"
    by (cases "cap - length ?A") auto
  then have "take cap ?A = ?A" by simp
  then show ?thesis
    by (simp add: sent set_new_Set)
qed


section \<open>Claims about the batched pricing operation\<close>

text \<open>
  C1. For every list of property identifiers of length \<open>L\<close>, \<open>getHotelOffers\<close> issues
  exactly \<open>ceil(L/20)\<close> pricing calls, one per batch and in the order of the batches;
  the \<open>hotelIds\<close> parameter of each call is its batch joined by commas; a batch holds at
  most 20 identifiers; the batches are the consecutive slices
  \<open>[20k, 20k + 20)\<close> of the input, and concatenated they give the input back.
  A call is counted where the client invokes \<open>this.http.get\<close>.
\<close>

theorem C1_batched_pricing_calls:
  "calls (trace (getHotelOffers v S client up p)) =
     map (\<lambda>batch. HotelOffers (requestParams v S p
            (request_rate_codes v (rateCodes p) (defaultSupplierCodes client)) batch))
         (make_batches (hotelIds p))
   \<and> (\<forall>codes batch. hd (requestParams v S p codes batch) = (js ''hotelIds'', join (js '','') batch))
   \<and> int (length (calls (trace (getHotelOffers v S client up p)))) = \<lceil>real (length (hotelIds p)) / 20\<rceil>
   \<and> (\<forall>batch \<in> set (make_batches (hotelIds p)). length batch \<le> 20)
   \<and> concat (make_batches (hotelIds p)) = hotelIds p
   \<and> (\<forall>k < length (make_batches (hotelIds p)).
         make_batches (hotelIds p) ! k = slice (hotelIds p) (20 * k) (20 * k + 20))"
proof (intro conjI)
  show "calls (trace (getHotelOffers v S client up p)) =
     map (\<lambda>batch. HotelOffers (requestParams v S p
            (request_rate_codes v (rateCodes p) (defaultSupplierCodes client)) batch))
         (make_batches (hotelIds p))"
    by (rule getHotelOffers_calls)
  show "\<forall>codes batch. hd (requestParams v S p codes batch) = (js ''hotelIds'', join (js '','') batch)"
    by (simp add: requestParams_def)
  show "int (length (calls (trace (getHotelOffers v S client up p)))) = \<lceil>real (length (hotelIds p)) / 20\<rceil>"
    by (simp only: getHotelOffers_calls length_map length_make_batches ceiling_div_20)
  show "\<forall>batch \<in> set (make_batches (hotelIds p)). length batch \<le> 20"
    by (simp add: batch_bounds)
  show "concat (make_batches (hotelIds p)) = hotelIds p"
    by (rule concat_make_batches)
  show "\<forall>k < length (make_batches (hotelIds p)).
         make_batches (hotelIds p) ! k = slice (hotelIds p) (20 * k) (20 * k + 20)"
    by (simp add: nth_make_batches)
qed

theorem C1_batched_pricing_calls_witness:
  "length (hotelIds (example_params 45)) = 45
   \<and> length (calls (trace (getHotelOffers part_000 decimal example_client
                 (no_data :: (unit, nat) upstream) (example_params 45)))) = 3
   \<and> map length (make_batches (hotelIds (example_params 45))) = [20, 20, 5]
   \<and> make_batches (hotelIds (example_params 45)) ! 2 = slice (hotelIds (example_params 45)) 40 60"
proof -
  note c1 = C1_batched_pricing_calls [of part_000 decimal example_client
      "no_data :: (unit, nat) upstream" "example_params 45"]
  have len: "length (hotelIds (example_params 45)) = 45"
    by (simp add: example_params_def example_ids_def)
  have n: "length (make_batches (hotelIds (example_params 45))) = 3"
    by (simp add: length_make_batches len)
  from c1 have cnt: "int (length (calls (trace (getHotelOffers part_000 decimal example_client
                 (no_data :: (unit, nat) upstream) (example_params 45))))) = 3"
    by (simp add: len length_make_batches)
  from c1 n have third: "make_batches (hotelIds (example_params 45)) ! 2 = slice (hotelIds (example_params 45)) 40 60"
    by simp
  have lens: "map length (make_batches (hotelIds (example_params 45))) = [20, 20, 5]"
  proof -
    have "[0..<3] = [0, 1, 2 :: nat]" by code_simp
    then show ?thesis by (simp add: make_batches_closed len)
  qed
  from len cnt third lens show ?thesis by simp
qed


lemma js_inject: "js a = js b \<longleftrightarrow> a = b"
proof -
  have "inj (of_char :: char \<Rightarrow> nat)"
    by (rule injI) simp
  then show ?thesis
    by (simp add: js_def inj_map_eq_map)
qed

lemma js_Nil: "js s = [] \<longleftrightarrow> s = []"
  by (simp add: js_def)

lemma keys_part_000:
  "Object_keys (SUPPLIER_CODES part_000) =
     [js ''APS'', js ''PP6'', js ''3MF'', js ''1HZ'', js ''W9E'', js ''PR2'']"
  by (simp add: part_000_def Object_keys_def)

lemma keys_amadeus_client_ts:
  "Object_keys (SUPPLIER_CODES amadeus_client_ts) =
     [js ''APS'', js ''PP6'', js ''3MF'', js ''1HZ'', js ''W9E'', js ''PR2'',
      js ''RAC'', js ''AAA'', js ''BED'', js ''PFK'']"
  by (simp add: amadeus_client_ts_def Object_keys_def)

lemma rateCodes_parameter:
  "map snd (filter (\<lambda>kv. fst kv = js ''rateCodes'') (requestParams v S p codes batch)) =
     (if codes = [] then [] else [join (js '','') codes])"
  by (simp add: requestParams_def when_truthy_def js_inject split: option.splits)


text \<open>
  C2. Every pricing call of \<open>getHotelOffers\<close> carries the rate codes merged from
  \<open>params.rateCodes\<close>, the caller's codes, and the default codes of the client; the
  \<open>rateCodes\<close> parameter of a call is that list joined by commas, and is left out when
  the list is empty. The list is free of duplicates. Before the cap it is the caller's
  codes, each at its first occurrence, followed by the default codes the caller did not
  supply, each at its first occurrence. The later revision keeps the first six of them,
  the earlier revision all. The codes kept under the cap are the first caller codes and
  then, in the room the caller codes leave, the first defaults; so a code that is not the
  caller's is sent only when every caller code is sent.
\<close>

theorem C2_merged_rate_codes:
  fixes up :: "('j, 'n) upstream"
  shows
  "calls (trace (getHotelOffers v S client up p)) =
     map (\<lambda>batch. HotelOffers (requestParams v S p
            (request_rate_codes v (rateCodes p) (defaultSupplierCodes client)) batch))
         (make_batches (hotelIds p))
   \<and> (\<forall>codes batch.
         map snd (filter (\<lambda>kv. fst kv = js ''rateCodes'') (requestParams v S p codes batch)) =
           (if codes = [] then [] else [join (js '','') codes]))
   \<and> caller_codes (rateCodes p) = (case rateCodes p of Some cs \<Rightarrow> cs | None \<Rightarrow> [])
   \<and> distinct (request_rate_codes v (rateCodes p) (defaultSupplierCodes client))
   \<and> merge_rate_codes (rateCodes p) (defaultSupplierCodes client) =
       new_Set (caller_codes (rateCodes p)) @
       filter (\<lambda>d. d \<notin> set (caller_codes (rateCodes p))) (new_Set (defaultSupplierCodes client))
   \<and> new_Set (caller_codes (rateCodes p)) = rev (remdups (rev (caller_codes (rateCodes p))))
   \<and> new_Set (defaultSupplierCodes client) = rev (remdups (rev (defaultSupplierCodes client)))
   \<and> request_rate_codes v (rateCodes p) (defaultSupplierCodes client) =
       (case MAX_RATE_CODES v of
          Some cap \<Rightarrow> take cap (merge_rate_codes (rateCodes p) (defaultSupplierCodes client))
        | None \<Rightarrow> merge_rate_codes (rateCodes p) (defaultSupplierCodes client))
   \<and> (\<forall>cap. MAX_RATE_CODES v = Some cap \<longrightarrow>
         request_rate_codes v (rateCodes p) (defaultSupplierCodes client) =
           take cap (new_Set (caller_codes (rateCodes p))) @
           take (cap - length (new_Set (caller_codes (rateCodes p))))
             (filter (\<lambda>d. d \<notin> set (caller_codes (rateCodes p)))
                (new_Set (defaultSupplierCodes client))))
   \<and> ((\<exists>d \<in> set (request_rate_codes v (rateCodes p) (defaultSupplierCodes client)).
          d \<notin> set (caller_codes (rateCodes p))) \<longrightarrow>
         set (caller_codes (rateCodes p)) \<subseteq>
           set (request_rate_codes v (rateCodes p) (defaultSupplierCodes client)))
   \<and> MAX_RATE_CODES part_000 = Some 6 \<and> MAX_RATE_CODES amadeus_client_ts = None"
proof (intro conjI)
  show "calls (trace (getHotelOffers v S client up p)) =
     map (\<lambda>batch. HotelOffers (requestParams v S p
            (request_rate_codes v (rateCodes p) (defaultSupplierCodes client)) batch))
         (make_batches (hotelIds p))"
    by (rule getHotelOffers_calls)
  show "\<forall>codes batch.
         map snd (filter (\<lambda>kv. fst kv = js ''rateCodes'') (requestParams v S p codes batch)) =
           (if codes = [] then [] else [join (js '','') codes])"
    by (intro allI) (rule rateCodes_parameter)
  show "caller_codes (rateCodes p) = (case rateCodes p of Some cs \<Rightarrow> cs | None \<Rightarrow> [])"
    by (simp add: caller_codes_def)
  show "distinct (request_rate_codes v (rateCodes p) (defaultSupplierCodes client))"
    by (rule distinct_request_rate_codes)
  show "merge_rate_codes (rateCodes p) (defaultSupplierCodes client) =
       new_Set (caller_codes (rateCodes p)) @
       filter (\<lambda>d. d \<notin> set (caller_codes (rateCodes p))) (new_Set (defaultSupplierCodes client))"
    by (rule merge_rate_codes_split)
  show "new_Set (caller_codes (rateCodes p)) = rev (remdups (rev (caller_codes (rateCodes p))))"
    by (rule new_Set_first_occurrences)
  show "new_Set (defaultSupplierCodes client) = rev (remdups (rev (defaultSupplierCodes client)))"
    by (rule new_Set_first_occurrences)
  show "request_rate_codes v (rateCodes p) (defaultSupplierCodes client) =
       (case MAX_RATE_CODES v of
          Some cap \<Rightarrow> take cap (merge_rate_codes (rateCodes p) (defaultSupplierCodes client))
        | None \<Rightarrow> merge_rate_codes (rateCodes p) (defaultSupplierCodes client))"
    by (simp add: request_rate_codes_def slice_def split: option.splits)
  show "\<forall>cap. MAX_RATE_CODES v = Some cap \<longrightarrow>
         request_rate_codes v (rateCodes p) (defaultSupplierCodes client) =
           take cap (new_Set (caller_codes (rateCodes p))) @
           take (cap - length (new_Set (caller_codes (rateCodes p))))
             (filter (\<lambda>d. d \<notin> set (caller_codes (rateCodes p)))
                (new_Set (defaultSupplierCodes client)))"
    using capped_rate_codes by blast
  show "(\<exists>d \<in> set (request_rate_codes v (rateCodes p) (defaultSupplierCodes client)).
          d \<notin> set (caller_codes (rateCodes p))) \<longrightarrow>
         set (caller_codes (rateCodes p)) \<subseteq>
           set (request_rate_codes v (rateCodes p) (defaultSupplierCodes client))"
    using caller_codes_first by blast
  show "MAX_RATE_CODES part_000 = Some 6"
    by (simp add: part_000_def)
  show "MAX_RATE_CODES amadeus_client_ts = None"
    by (simp add: amadeus_client_ts_def)
qed


lemma example_batches: "length (make_batches (hotelIds (example_params 45))) = 3"
  by (simp add: length_make_batches example_params_def example_ids_def)


lemma coded_params_fields:
  "rateCodes coded_params = Some [js ''ZZZ'', js ''APS'', js ''ZZZ'']"
  "hotelIds coded_params = hotelIds (example_params 45)"
  by (simp_all add: coded_params_def)

lemma example_client_defaults:
  "defaultSupplierCodes example_client =
     [js ''APS'', js ''PP6'', js ''3MF'', js ''1HZ'', js ''W9E'', js ''PR2'']"
  by (simp add: example_client_def keys_part_000)

theorem C2_merged_rate_codes_witness:
  "rateCodes coded_params = Some [js ''ZZZ'', js ''APS'', js ''ZZZ'']
   \<and> defaultSupplierCodes example_client =
       [js ''APS'', js ''PP6'', js ''3MF'', js ''1HZ'', js ''W9E'', js ''PR2'']
   \<and> MAX_RATE_CODES part_000 = Some 6
   \<and> request_rate_codes part_000 (rateCodes coded_params) (defaultSupplierCodes example_client) =
       [js ''ZZZ'', js ''APS'', js ''PP6'', js ''3MF'', js ''1HZ'', js ''W9E'']
   \<and> calls (trace (getHotelOffers part_000 decimal example_client second_call_fails coded_params)) =
       map (\<lambda>batch. HotelOffers (requestParams part_000 decimal coded_params
              [js ''ZZZ'', js ''APS'', js ''PP6'', js ''3MF'', js ''1HZ'', js ''W9E''] batch))
           (make_batches (hotelIds coded_params))
   \<and> length (calls (trace (getHotelOffers part_000 decimal example_client second_call_fails
         coded_params))) = 3
   \<and> map snd (filter (\<lambda>kv. fst kv = js ''rateCodes'')
         (requestParams part_000 decimal coded_params
            [js ''ZZZ'', js ''APS'', js ''PP6'', js ''3MF'', js ''1HZ'', js ''W9E'']
            (hd (make_batches (hotelIds coded_params))))) = [js ''ZZZ,APS,PP6,3MF,1HZ,W9E'']
   \<and> js ''PP6'' \<in> set (request_rate_codes part_000 (rateCodes coded_params)
         (defaultSupplierCodes example_client))
   \<and> js ''PP6'' \<notin> set (caller_codes (rateCodes coded_params))
   \<and> set (caller_codes (rateCodes coded_params)) \<subseteq>
       set (request_rate_codes part_000 (rateCodes coded_params)
         (defaultSupplierCodes example_client))
   \<and> distinct (request_rate_codes part_000 (rateCodes coded_params)
         (defaultSupplierCodes example_client))"
proof -
  let ?sent = "request_rate_codes part_000 (rateCodes coded_params)
      (defaultSupplierCodes example_client)"
  let ?caller = "caller_codes (rateCodes coded_params)"
  let ?codes = "[js ''ZZZ'', js ''APS'', js ''PP6'', js ''3MF'', js ''1HZ'', js ''W9E'']"
  note c2 = C2_merged_rate_codes [where v = part_000 and S = decimal and client = example_client
      and up = second_call_fails and p = coded_params]
  note sent_calls = c2 [THEN conjunct1]
  note parameter = c2 [THEN conjunct2, THEN conjunct1, rule_format]
  from c2 have caller: "?caller = [js ''ZZZ'', js ''APS'', js ''ZZZ'']"
    by (simp add: coded_params_fields)
  from c2 have cap: "MAX_RATE_CODES part_000 = Some 6"
    by blast
  from c2 have "\<forall>cap. MAX_RATE_CODES part_000 = Some cap \<longrightarrow>
      ?sent = take cap (new_Set ?caller) @
        take (cap - length (new_Set ?caller))
          (filter (\<lambda>d. d \<notin> set ?caller) (new_Set (defaultSupplierCodes example_client)))"
    by blast
  with cap have "?sent = take 6 (new_Set ?caller) @
        take (6 - length (new_Set ?caller))
          (filter (\<lambda>d. d \<notin> set ?caller) (new_Set (defaultSupplierCodes example_client)))"
    by blast
  then have sent: "?sent = ?codes"
    by (simp add: caller example_client_defaults new_Set_Cons new_Set_Nil js_inject)
  have made: "calls (trace (getHotelOffers part_000 decimal example_client second_call_fails
        coded_params)) =
       map (\<lambda>batch. HotelOffers (requestParams part_000 decimal coded_params ?codes batch))
           (make_batches (hotelIds coded_params))"
    using sent_calls by (simp only: sent)
  then have cnt: "length (calls (trace (getHotelOffers part_000 decimal example_client
        second_call_fails coded_params))) = 3"
    by (simp add: coded_params_fields example_batches)
  have par: "map snd (filter (\<lambda>kv. fst kv = js ''rateCodes'')
         (requestParams part_000 decimal coded_params ?codes
            (hd (make_batches (hotelIds coded_params))))) = [js ''ZZZ,APS,PP6,3MF,1HZ,W9E'']"
    by (simp only: parameter) (simp add: js_def)
  have fresh: "js ''PP6'' \<notin> set ?caller"
    by (simp add: caller js_inject)
  have mem: "js ''PP6'' \<in> set ?sent"
    by (simp add: sent)
  from c2 have "(\<exists>d \<in> set ?sent. d \<notin> set ?caller) \<longrightarrow> set ?caller \<subseteq> set ?sent"
    by blast
  with mem fresh have sub: "set ?caller \<subseteq> set ?sent"
    by blast
  from c2 have dist: "distinct ?sent"
    by blast
  show ?thesis
    by (intro conjI)
       (rule coded_params_fields example_client_defaults cap sent made cnt par mem fresh sub dist)+
qed

section \<open>Claims about enrichment and filtering\<close>

lemma enrich_offer_keeps:
  "rateCode (enrich_offer v offer) = rateCode offer"
  "offer_fields (enrich_offer v offer) = offer_fields offer"
  by (simp_all add: enrich_offer_def Let_def)

lemma enrich_offer_changes_only_derived:
  "enrich_offer v offer =
     offer\<lparr>supplierName := supplierName (enrich_offer v offer),
            isNegotiatedRate := isNegotiatedRate (enrich_offer v offer)\<rparr>"
  by (simp add: enrich_offer_def Let_def)

lemma enrich_offer_registered:
  assumes "map_of (SUPPLIER_CODES v) (case rateCode offer of Some c \<Rightarrow> trim c | None \<Rightarrow> []) = Some info"
  shows "supplierName (enrich_offer v offer) = Some (name info)"
    and "isNegotiatedRate (enrich_offer v offer) = Some True"
  using assms by (simp_all add: enrich_offer_def Let_def get_property_def property_name_def)

lemma enrich_offer_unknown:
  assumes "map_of (SUPPLIER_CODES v) (case rateCode offer of Some c \<Rightarrow> trim c | None \<Rightarrow> []) = None"
    and "map_of Object_prototype (case rateCode offer of Some c \<Rightarrow> trim c | None \<Rightarrow> []) = None"
  shows "supplierName (enrich_offer v offer) = None"
    and "isNegotiatedRate (enrich_offer v offer) = Some False"
  using assms by (simp_all add: enrich_offer_def Let_def get_property_def property_name_def)

lemma trim_constructor: "trim (js ''constructor'') = js ''constructor''"
  by (simp add: trim_def js_def is_white_space_def)

lemma constructor_not_registered:
  "map_of (SUPPLIER_CODES part_000) (js ''constructor'') = None"
  "map_of (SUPPLIER_CODES amadeus_client_ts) (js ''constructor'') = None"
  by (simp_all add: part_000_def amadeus_client_ts_def js_inject)

lemma constructor_inherited:
  "map_of Object_prototype (js ''constructor'') = Some (Some (js ''Object''))"
  by (simp add: Object_prototype_def)

text \<open>
  C3. The enrichment of an offer looks the trimmed rate code up in \<open>SUPPLIER_CODES\<close>
  and sets \<open>supplierName\<close> and \<open>isNegotiatedRate\<close>, leaving every other field as it
  was (\<open>enrich_offer_keeps\<close>). A code of the registry gives the name of its entry and
  \<open>true\<close> (\<open>enrich_offer_registered\<close>); a code that is neither in the registry nor
  the name of a member of \<open>Object.prototype\<close> gives no name and \<open>false\<close>
  (\<open>enrich_offer_unknown\<close>), and so does an absent code (\<open>enrich_offer_absent_code\<close>).
  The rate code \<open>constructor\<close> is not in the registry of either revision, yet the
  lookup finds the inherited \<open>Object.prototype.constructor\<close>: the offer is marked as a
  negotiated rate of the supplier "Object".
\<close>

theorem C3_enrich_offer_inherited_key:
  "map_of (SUPPLIER_CODES part_000) (js ''constructor'') = None
   \<and> map_of (SUPPLIER_CODES amadeus_client_ts) (js ''constructor'') = None
   \<and> enrich_offer part_000
        \<lparr>rateCode = Some (js ''constructor''), supplierName = None,
         isNegotiatedRate = None, offer_fields = other\<rparr> =
        \<lparr>rateCode = Some (js ''constructor''), supplierName = Some (js ''Object''),
         isNegotiatedRate = Some True, offer_fields = other\<rparr>
   \<and> enrich_offer amadeus_client_ts
        \<lparr>rateCode = Some (js ''constructor''), supplierName = None,
         isNegotiatedRate = None, offer_fields = other\<rparr> =
        \<lparr>rateCode = Some (js ''constructor''), supplierName = Some (js ''Object''),
         isNegotiatedRate = Some True, offer_fields = other\<rparr>"
  by (simp add: enrich_offer_def Let_def get_property_def property_name_def trim_constructor
        constructor_not_registered constructor_inherited)

lemma Nil_js: "[] = js s \<longleftrightarrow> s = []"
  by (auto simp: js_def)

lemma absent_code_not_registered:
  "map_of (SUPPLIER_CODES part_000) [] = None"
  "map_of (SUPPLIER_CODES amadeus_client_ts) [] = None"
  "map_of Object_prototype [] = None"
  by (simp_all add: part_000_def amadeus_client_ts_def Object_prototype_def Nil_js)

lemma enrich_offer_absent_code:
  assumes "rateCode offer = None" and "v = part_000 \<or> v = amadeus_client_ts"
  shows "supplierName (enrich_offer v offer) = None"
    and "isNegotiatedRate (enrich_offer v offer) = Some False"
  using assms
  by (auto simp: enrich_offer_def Let_def get_property_def property_name_def
        absent_code_not_registered)


lemma getHotelOffers_results:
  "allResults (getHotelOffers v S client up p) =
     concat (map (\<lambda>k. chunk_result v up k
                    (requestParams v S p
                       (request_rate_codes v (rateCodes p) (defaultSupplierCodes client))
                       (make_batches (hotelIds p) ! k)))
                 [0..<length (make_batches (hotelIds p))])"
  by (simp add: getHotelOffers_def Let_def offers_loop_results)

lemma has_inventory_iff:
  "has_inventory h \<longleftrightarrow> available h \<and> (\<exists>os. offers h = Some os \<and> os \<noteq> [])"
  by (cases "offers h") (simp_all add: has_inventory_def)

lemma has_inventory_enrich_hotel: "has_inventory (enrich_hotel v h) = has_inventory h"
  by (cases "offers h") (simp_all add: has_inventory_def enrich_hotel_def)

lemma enriched_available_filter:
  "enriched_available v data = map (enrich_hotel v) (filter has_inventory data)"
  by (simp add: enriched_available_def filter_map comp_def has_inventory_enrich_hotel)

lemma chunk_result_inventory: "h \<in> set (chunk_result v up k request) \<Longrightarrow> has_inventory h"
  by (auto simp: chunk_result_def enriched_available_def split: sum.splits option.splits)

lemma chunk_result_enriched:
  "h \<in> set (chunk_result v up k request) \<Longrightarrow> \<exists>h0. h = enrich_hotel v h0 \<and> has_inventory h0"
  by (auto simp: chunk_result_def enriched_available_filter split: sum.splits option.splits)

lemma getHotelOffers_inventory:
  "h \<in> set (allResults (getHotelOffers v S client up p)) \<Longrightarrow> has_inventory h"
  by (auto simp: getHotelOffers_results dest: chunk_result_inventory)

text \<open>
  C4. Every hotel in the result of \<open>getHotelOffers\<close> is available and has at least one
  offer. A hotel that is not available, or has no \<open>offers\<close> field, or an empty one, is
  not in the result, neither as the upstream sent it nor enriched. What a response
  contributes is the enrichment of exactly its hotels with inventory, in their order.
\<close>

theorem C4_only_hotels_with_inventory:
  fixes up :: "('j, 'n) upstream"
  shows "(\<forall>h \<in> set (allResults (getHotelOffers v S client up p)).
      available h \<and> (\<exists>os. offers h = Some os \<and> os \<noteq> []))
   \<and> (\<forall>h. \<not> available h \<or> offers h = None \<or> offers h = Some [] \<longrightarrow>
          h \<notin> set (allResults (getHotelOffers v S client up p))
          \<and> enrich_hotel v h \<notin> set (allResults (getHotelOffers v S client up p)))
   \<and> (\<forall>data :: 'j HotelOffer list.
         enriched_available v data = map (enrich_hotel v) (filter has_inventory data))"
proof (intro conjI ballI allI impI)
  fix h
  assume "h \<in> set (allResults (getHotelOffers v S client up p))"
  then have "has_inventory h" by (rule getHotelOffers_inventory)
  then show "available h" and "\<exists>os. offers h = Some os \<and> os \<noteq> []"
    by (simp_all add: has_inventory_iff)
next
  fix h :: "'j HotelOffer"
  assume "\<not> available h \<or> offers h = None \<or> offers h = Some []"
  then have no: "\<not> has_inventory h"
    by (auto simp: has_inventory_iff)
  then show "h \<notin> set (allResults (getHotelOffers v S client up p))"
    using getHotelOffers_inventory by blast
  from no have "\<not> has_inventory (enrich_hotel v h)"
    by (simp add: has_inventory_enrich_hotel)
  then show "enrich_hotel v h \<notin> set (allResults (getHotelOffers v S client up p))"
    using getHotelOffers_inventory by blast
next
  fix data :: "'j HotelOffer list"
  show "enriched_available v data = map (enrich_hotel v) (filter has_inventory data)"
    by (rule enriched_available_filter)
qed

lemma upt_3: "[0..<3] = [0, 1, 2 :: nat]"
  by code_simp

lemma trim_APS: "trim (js '' APS '') = js ''APS''"
  by (simp add: trim_def js_def is_white_space_def)

lemma trim_XYZ: "trim (js ''XYZ'') = js ''XYZ''"
  by (simp add: trim_def js_def is_white_space_def)

lemma APS_registered: "map_option name (map_of (SUPPLIER_CODES part_000) (js ''APS'')) = Some (js ''Virtuoso'')"
  by (simp add: part_000_def)

lemma XYZ_unknown:
  "map_of (SUPPLIER_CODES part_000) (js ''XYZ'') = None"
  "map_of Object_prototype (js ''XYZ'') = None"
  by (simp_all add: part_000_def Object_prototype_def js_inject)

lemma enrich_APS:
  "enrich_offer part_000 (example_offer (Some (js '' APS ''))) =
     \<lparr>rateCode = Some (js '' APS ''), supplierName = Some (js ''Virtuoso''),
      isNegotiatedRate = Some True, offer_fields = 0\<rparr>"
proof -
  from APS_registered obtain info where
    "map_of (SUPPLIER_CODES part_000) (js ''APS'') = Some info" and "name info = js ''Virtuoso''"
    by auto
  then show ?thesis
    by (simp add: enrich_offer_def Let_def example_offer_def trim_APS get_property_def
          property_name_def)
qed

lemma enrich_XYZ:
  "enrich_offer part_000 (example_offer (Some (js ''XYZ''))) =
     \<lparr>rateCode = Some (js ''XYZ''), supplierName = None,
      isNegotiatedRate = Some False, offer_fields = 0\<rparr>"
  by (simp add: enrich_offer_def Let_def example_offer_def trim_XYZ get_property_def
        property_name_def XYZ_unknown)

lemma enrich_absent:
  "enrich_offer part_000 (example_offer None) =
     \<lparr>rateCode = None, supplierName = None,
      isNegotiatedRate = Some False, offer_fields = 0\<rparr>"
  by (simp add: enrich_offer_def Let_def example_offer_def get_property_def
        property_name_def absent_code_not_registered)

lemma first_response_enriched: "enriched_available part_000 first_response = first_enriched"
  by (simp add: enriched_available_def first_response_def first_enriched_def example_hotel_def
        enrich_hotel_def has_inventory_def enrich_APS)

lemma third_response_enriched: "enriched_available part_000 third_response = third_enriched"
  by (simp add: enriched_available_def third_response_def third_enriched_def example_hotel_def
        enrich_hotel_def has_inventory_def enrich_XYZ enrich_absent)

lemma example_chunks:
  "chunk_result part_000 second_call_fails 0 request = first_enriched"
  "chunk_result part_000 second_call_fails (Suc 0) request = []"
  "chunk_result part_000 second_call_fails 2 request = third_enriched"
  by (simp_all add: chunk_result_def second_call_fails_def first_response_enriched
        third_response_enriched)

lemma example_results:
  "allResults (getHotelOffers part_000 decimal example_client second_call_fails (example_params 45)) =
     first_enriched @ third_enriched"
  by (simp add: getHotelOffers_results example_batches upt_3 example_chunks)

theorem C4_only_hotels_with_inventory_witness:
  "allResults (getHotelOffers part_000 decimal example_client second_call_fails (example_params 45))
     = first_enriched @ third_enriched
   \<and> available (hd first_enriched)
   \<and> offers (hd first_enriched) \<noteq> None \<and> offers (hd first_enriched) \<noteq> Some []
   \<and> \<not> available (example_hotel 2 False (Some [example_offer None]))
   \<and> example_hotel 2 False (Some [example_offer None]) \<notin>
       set (allResults (getHotelOffers part_000 decimal example_client second_call_fails
              (example_params 45)))
   \<and> example_hotel 3 True None \<notin>
       set (allResults (getHotelOffers part_000 decimal example_client second_call_fails
              (example_params 45)))"
proof -
  let ?res = "allResults (getHotelOffers part_000 decimal example_client second_call_fails
              (example_params 45))"
  note c4 = C4_only_hotels_with_inventory [of part_000 decimal example_client second_call_fails
      "example_params 45"]
  have res: "?res = first_enriched @ third_enriched"
    by (rule example_results)
  then have "hd first_enriched \<in> set ?res"
    by (simp add: first_enriched_def)
  with c4 have a: "available (hd first_enriched) \<and> (\<exists>os. offers (hd first_enriched) = Some os \<and> os \<noteq> [])"
    by blast
  have b: "\<not> available (example_hotel 2 False (Some [example_offer None]))"
    by (simp add: example_hotel_def)
  with c4 have c: "example_hotel 2 False (Some [example_offer None]) \<notin> set ?res"
    by blast
  have "offers (example_hotel 3 True None) = None"
    by (simp add: example_hotel_def)
  with c4 have d: "example_hotel 3 True None \<notin> set ?res"
    by blast
  from res a b c d show ?thesis
    by auto
qed


lemma chunk_result_cases:
  "hotel_offers up k request = Inl err \<Longrightarrow> chunk_result v up k request = []"
  "hotel_offers up k request = Inr None \<Longrightarrow> chunk_result v up k request = []"
  "hotel_offers up k request = Inr (Some data) \<Longrightarrow>
     chunk_result v up k request = map (enrich_hotel v) (filter has_inventory data)"
  by (simp_all add: chunk_result_def enriched_available_filter)

lemma call_tool_get_hotel_offers:
  assumes "ids \<noteq> []" and "ci \<noteq> []" and "co \<noteq> []"
  shows "call_tool v S client up (get_hotel_offers (Some ids) (Some ci) (Some co) opts) =
     (let st = getHotelOffers v S client up
                 (offer_options.extend opts (GetHotelOffers.fields ids ci co))
      in (Inr (PricedHotels (getDefaultSupplierCodes client) (length ids) (allResults st)),
          trace st, console st))"
  using assms by (simp add: call_tool_def Let_def)

text \<open>
  C5. A batch whose call fails adds nothing and does not stop the query: the result of
  \<open>getHotelOffers\<close> is the concatenation, in the order of the batches, of what each
  batch contributes, which is nothing for a failed call or a response without data and,
  for a response with data, the enrichment of its hotels with inventory in the order of
  the response. Every batch is attempted whatever the outcome of the others. The
  operation has no exceptional result, and the tool handler, given identifiers and both
  dates, returns the hotels and throws nothing.
\<close>

theorem C5_failed_batches_are_skipped:
  fixes up :: "('j, 'n) upstream"
  shows
  "allResults (getHotelOffers v S client up p) =
     concat (map (\<lambda>k. chunk_result v up k
                    (requestParams v S p
                       (request_rate_codes v (rateCodes p) (defaultSupplierCodes client))
                       (make_batches (hotelIds p) ! k)))
                 [0..<length (make_batches (hotelIds p))])
   \<and> (\<forall>k request err. hotel_offers up k request = Inl err \<longrightarrow> chunk_result v up k request = [])
   \<and> (\<forall>k request. hotel_offers up k request = Inr None \<longrightarrow> chunk_result v up k request = [])
   \<and> (\<forall>k request data. hotel_offers up k request = Inr (Some data) \<longrightarrow>
         chunk_result v up k request = map (enrich_hotel v) (filter has_inventory data))
   \<and> length (calls (trace (getHotelOffers v S client up p))) = length (make_batches (hotelIds p))
   \<and> (\<forall>ids ci co opts. ids \<noteq> [] \<and> ci \<noteq> [] \<and> co \<noteq> [] \<longrightarrow>
         fst (call_tool v S client up (get_hotel_offers (Some ids) (Some ci) (Some co) opts)) =
           Inr (PricedHotels (getDefaultSupplierCodes client) (length ids)
                  (allResults (getHotelOffers v S client up
                     (offer_options.extend opts (GetHotelOffers.fields ids ci co))))))"
proof (intro conjI allI impI)
  show "allResults (getHotelOffers v S client up p) =
     concat (map (\<lambda>k. chunk_result v up k
                    (requestParams v S p
                       (request_rate_codes v (rateCodes p) (defaultSupplierCodes client))
                       (make_batches (hotelIds p) ! k)))
                 [0..<length (make_batches (hotelIds p))])"
    by (rule getHotelOffers_results)
  show "length (calls (trace (getHotelOffers v S client up p))) = length (make_batches (hotelIds p))"
    by (simp add: getHotelOffers_calls)
next
  fix k request err
  assume "hotel_offers up k request = Inl err"
  then show "chunk_result v up k request = []"
    by (rule chunk_result_cases)
next
  fix k request
  assume "hotel_offers up k request = Inr None"
  then show "chunk_result v up k request = []"
    by (rule chunk_result_cases)
next
  fix k request data
  assume "hotel_offers up k request = Inr (Some data)"
  then show "chunk_result v up k request = map (enrich_hotel v) (filter has_inventory data)"
    by (rule chunk_result_cases)
next
  fix ids :: "jsstring list" and ci co :: jsstring and opts :: "'n offer_options"
  assume "ids \<noteq> [] \<and> ci \<noteq> [] \<and> co \<noteq> []"
  then show "fst (call_tool v S client up (get_hotel_offers (Some ids) (Some ci) (Some co) opts)) =
           Inr (PricedHotels (getDefaultSupplierCodes client) (length ids)
                  (allResults (getHotelOffers v S client up
                     (offer_options.extend opts (GetHotelOffers.fields ids ci co)))))"
    by (simp add: call_tool_get_hotel_offers Let_def)
qed


lemma example_params_extend:
  "offer_options.extend example_options
     (GetHotelOffers.fields (example_ids n) (js ''2026-03-01'') (js ''2026-03-04'')) =
   example_params n"
  by (simp add: example_params_def example_options_def offer_options.defs GetHotelOffers.defs)

lemma example_ids_nonempty: "example_ids 45 \<noteq> []"
  by (simp add: example_ids_def)

theorem C5_failed_batches_are_skipped_witness:
  "length (make_batches (hotelIds (example_params 45))) = 3
   \<and> hotel_offers second_call_fails 0 [] = Inr (Some first_response)
   \<and> hotel_offers second_call_fails 1 [] = Inl server_error
   \<and> hotel_offers second_call_fails 2 [] = Inr (Some third_response)
   \<and> allResults (getHotelOffers part_000 decimal example_client second_call_fails
         (example_params 45)) =
       map (enrich_hotel part_000) (filter has_inventory first_response) @
       map (enrich_hotel part_000) (filter has_inventory third_response)
   \<and> allResults (getHotelOffers part_000 decimal example_client second_call_fails
         (example_params 45)) = first_enriched @ third_enriched
   \<and> length (calls (trace (getHotelOffers part_000 decimal example_client second_call_fails
         (example_params 45)))) = 3
   \<and> fst (call_tool part_000 decimal example_client second_call_fails
         (get_hotel_offers (Some (example_ids 45)) (Some (js ''2026-03-01''))
            (Some (js ''2026-03-04'')) example_options)) =
       Inr (PricedHotels (getDefaultSupplierCodes example_client) 45
              (first_enriched @ third_enriched))"
proof -
  let ?run = "getHotelOffers part_000 decimal example_client second_call_fails (example_params 45)"
  note c5 = C5_failed_batches_are_skipped [of part_000 decimal example_client second_call_fails
      "example_params 45"]
  note all_chunks = c5 [THEN conjunct1]
  note failed = c5 [THEN conjunct2, THEN conjunct1, rule_format]
  note answered = c5 [THEN conjunct2, THEN conjunct2, THEN conjunct2, THEN conjunct1, rule_format]
  note attempts = c5 [THEN conjunct2, THEN conjunct2, THEN conjunct2, THEN conjunct2, THEN conjunct1]
  note handler = c5 [THEN conjunct2, THEN conjunct2, THEN conjunct2, THEN conjunct2,
      THEN conjunct2, rule_format]
  have o0: "hotel_offers second_call_fails 0 request = Inr (Some first_response)" for request
    by (simp add: second_call_fails_def)
  have o1: "hotel_offers second_call_fails 1 request = Inl server_error" for request
    by (simp add: second_call_fails_def)
  have o2: "hotel_offers second_call_fails 2 request = Inr (Some third_response)" for request
    by (simp add: second_call_fails_def)
  have k0: "chunk_result part_000 second_call_fails 0 request =
      map (enrich_hotel part_000) (filter has_inventory first_response)" for request
    by (rule answered [OF o0])
  have k1: "chunk_result part_000 second_call_fails 1 request = []" for request
    by (rule failed [OF o1])
  have k2: "chunk_result part_000 second_call_fails 2 request =
      map (enrich_hotel part_000) (filter has_inventory third_response)" for request
    by (rule answered [OF o2])
  have res: "allResults ?run =
       map (enrich_hotel part_000) (filter has_inventory first_response) @
       map (enrich_hotel part_000) (filter has_inventory third_response)"
    by (simp only: all_chunks example_batches upt_3 list.map concat.simps k0 k1 k2 append_Nil
          append_Nil2)
  have res': "allResults ?run = first_enriched @ third_enriched"
    by (rule example_results)
  have cnt: "length (calls (trace ?run)) = 3"
    by (simp only: attempts example_batches)
  have "fst (call_tool part_000 decimal example_client second_call_fails
         (get_hotel_offers (Some (example_ids 45)) (Some (js ''2026-03-01''))
            (Some (js ''2026-03-04'')) example_options)) =
       Inr (PricedHotels (getDefaultSupplierCodes example_client) (length (example_ids 45))
              (allResults (getHotelOffers part_000 decimal example_client second_call_fails
                     (offer_options.extend example_options
                        (GetHotelOffers.fields (example_ids 45) (js ''2026-03-01'')
                           (js ''2026-03-04''))))))"
    by (rule handler) (simp add: example_ids_nonempty js_Nil)
  then have tool: "fst (call_tool part_000 decimal example_client second_call_fails
         (get_hotel_offers (Some (example_ids 45)) (Some (js ''2026-03-01''))
            (Some (js ''2026-03-04'')) example_options)) =
       Inr (PricedHotels (getDefaultSupplierCodes example_client) 45
              (first_enriched @ third_enriched))"
    by (simp only: example_params_extend res') (simp add: example_ids_def)
  show ?thesis
    by (intro conjI) (rule example_batches o0 o1 o2 res res' cnt tool)+
qed

section \<open>Claim about the token manager\<close>

lemma getAccessToken_cached:
  assumes "accessToken cache = Some token" and "token \<noteq> []"
    and "now < tokenExpiresAt cache - 30000"
  shows "getAccessToken client endpoint now cache = (Inr token, cache, [])"
  using assms by (simp add: getAccessToken_def)

lemma getAccessToken_exchange:
  assumes "\<not> fresh_enough now cache"
  shows "getAccessToken client endpoint now cache = exchange client endpoint now cache"
  using assms by (auto simp: getAccessToken_def fresh_enough_def split: option.splits)

lemma exchange_posts: "snd (snd (exchange client endpoint now cache)) = [the_post client]"
  by (simp add: exchange_def the_post_def Let_def split: sum.splits)

lemma exchange_rejected:
  "endpoint (the_post client) = Inl err \<Longrightarrow>
     exchange client endpoint now cache = (Inl err, cache, [the_post client])"
  by (simp add: exchange_def the_post_def)

lemma exchange_granted:
  "endpoint (the_post client) = Inr response \<Longrightarrow>
     exchange client endpoint now cache =
       (Inr (access_token response),
        \<lparr>accessToken = Some (access_token response),
         tokenExpiresAt = now + expires_in response * 1000\<rparr>,
        [the_post client])"
  by (simp add: exchange_def the_post_def)

text \<open>
  C6. When the cache holds a token and the current time is earlier than its expiry less
  30 seconds, \<open>getAccessToken\<close> returns that token, leaves the cache as it is and makes
  no request. Otherwise it posts one credential exchange to the token endpoint before it
  returns: a rejected exchange is thrown and leaves the cache unchanged, a granted one
  returns the new token and caches it with the lifetime the endpoint advertises. A token
  that expires 40 seconds from now is reused; one that expires 20 seconds from now is
  exchanged. A cached token exists when \<open>this.accessToken\<close> is truthy: not \<open>null\<close>
  and not the empty string.
\<close>

theorem C6_token_reuse_and_refresh:
  "(\<forall>token. accessToken cache = Some token \<and> token \<noteq> [] \<and> now < tokenExpiresAt cache - 30000 \<longrightarrow>
      getAccessToken client endpoint now cache = (Inr token, cache, []))
   \<and> (\<not> fresh_enough now cache \<longrightarrow>
        snd (snd (getAccessToken client endpoint now cache)) = [the_post client]
        \<and> (\<forall>err. endpoint (the_post client) = Inl err \<longrightarrow>
              getAccessToken client endpoint now cache = (Inl err, cache, [the_post client]))
        \<and> (\<forall>response. endpoint (the_post client) = Inr response \<longrightarrow>
              getAccessToken client endpoint now cache =
                (Inr (access_token response),
                 \<lparr>accessToken = Some (access_token response),
                  tokenExpiresAt = now + expires_in response * 1000\<rparr>,
                 [the_post client])))
   \<and> (\<forall>token. token \<noteq> [] \<longrightarrow>
        getAccessToken client endpoint now
          \<lparr>accessToken = Some token, tokenExpiresAt = now + 40000\<rparr> =
        (Inr token, \<lparr>accessToken = Some token, tokenExpiresAt = now + 40000\<rparr>, []))
   \<and> (\<forall>token. snd (snd (getAccessToken client endpoint now
          \<lparr>accessToken = Some token, tokenExpiresAt = now + 20000\<rparr>)) = [the_post client])"
proof (intro conjI allI impI)
  fix token
  assume "accessToken cache = Some token \<and> token \<noteq> [] \<and> now < tokenExpiresAt cache - 30000"
  then show "getAccessToken client endpoint now cache = (Inr token, cache, [])"
    by (simp add: getAccessToken_cached)
next
  assume stale: "\<not> fresh_enough now cache"
  show "snd (snd (getAccessToken client endpoint now cache)) = [the_post client]"
    by (simp add: getAccessToken_exchange [OF stale] exchange_posts)
  fix err
  assume "endpoint (the_post client) = Inl err"
  then show "getAccessToken client endpoint now cache = (Inl err, cache, [the_post client])"
    by (simp add: getAccessToken_exchange [OF stale] exchange_rejected)
next
  fix response
  assume stale: "\<not> fresh_enough now cache"
  assume "endpoint (the_post client) = Inr response"
  then show "getAccessToken client endpoint now cache =
                (Inr (access_token response),
                 \<lparr>accessToken = Some (access_token response),
                  tokenExpiresAt = now + expires_in response * 1000\<rparr>,
                 [the_post client])"
    by (simp add: getAccessToken_exchange [OF stale] exchange_granted)
next
  fix token :: jsstring
  assume "token \<noteq> []"
  then show "getAccessToken client endpoint now
          \<lparr>accessToken = Some token, tokenExpiresAt = now + 40000\<rparr> =
        (Inr token, \<lparr>accessToken = Some token, tokenExpiresAt = now + 40000\<rparr>, [])"
    by (simp add: getAccessToken_cached)
next
  fix token :: jsstring
  have "\<not> fresh_enough now \<lparr>accessToken = Some token, tokenExpiresAt = now + 20000\<rparr>"
    by (simp add: fresh_enough_def)
  then show "snd (snd (getAccessToken client endpoint now
          \<lparr>accessToken = Some token, tokenExpiresAt = now + 20000\<rparr>)) = [the_post client]"
    by (simp add: getAccessToken_exchange exchange_posts)
qed

theorem C6_token_reuse_and_refresh_witness:
  "getAccessToken example_client example_endpoint 1000000
     \<lparr>accessToken = Some (js ''cached''), tokenExpiresAt = 1040000\<rparr> =
     (Inr (js ''cached''), \<lparr>accessToken = Some (js ''cached''), tokenExpiresAt = 1040000\<rparr>, [])
   \<and> \<not> fresh_enough 1000000 \<lparr>accessToken = Some (js ''cached''), tokenExpiresAt = 1020000\<rparr>
   \<and> getAccessToken example_client example_endpoint 1000000
     \<lparr>accessToken = Some (js ''cached''), tokenExpiresAt = 1020000\<rparr> =
     (Inr (js ''fresh''), \<lparr>accessToken = Some (js ''fresh''), tokenExpiresAt = 2799000\<rparr>,
      [the_post example_client])
   \<and> getAccessToken example_client example_endpoint 1000000 initial_cache =
     (Inr (js ''fresh''), \<lparr>accessToken = Some (js ''fresh''), tokenExpiresAt = 2799000\<rparr>,
      [the_post example_client])"
proof -
  have cached: "js ''cached'' \<noteq> []"
    by (simp add: js_Nil)
  have stale: "\<not> fresh_enough 1000000 \<lparr>accessToken = Some (js ''cached''), tokenExpiresAt = 1020000\<rparr>"
    by (simp add: fresh_enough_def)
  have none: "\<not> fresh_enough 1000000 initial_cache"
    by (simp add: fresh_enough_def initial_cache_def)
  have granted: "example_endpoint (the_post example_client) =
      Inr \<lparr>access_token = js ''fresh'', expires_in = 1799\<rparr>"
    by (simp add: example_endpoint_def)
  note c6 = C6_token_reuse_and_refresh [of _ 1000000 example_client example_endpoint]
  have a: "getAccessToken example_client example_endpoint 1000000
     \<lparr>accessToken = Some (js ''cached''), tokenExpiresAt = 1040000\<rparr> =
     (Inr (js ''cached''), \<lparr>accessToken = Some (js ''cached''), tokenExpiresAt = 1040000\<rparr>, [])"
    using c6 [of "\<lparr>accessToken = Some (js ''cached''), tokenExpiresAt = 1040000\<rparr>",
        THEN conjunct1, rule_format, of "js ''cached''"] cached by simp
  have b: "getAccessToken example_client example_endpoint 1000000
     \<lparr>accessToken = Some (js ''cached''), tokenExpiresAt = 1020000\<rparr> =
     (Inr (js ''fresh''), \<lparr>accessToken = Some (js ''fresh''), tokenExpiresAt = 2799000\<rparr>,
      [the_post example_client])"
    using c6 [of "\<lparr>accessToken = Some (js ''cached''), tokenExpiresAt = 1020000\<rparr>",
        THEN conjunct2, THEN conjunct1, rule_format, OF stale,
        THEN conjunct2, THEN conjunct2, rule_format, OF granted] by simp
  have c: "getAccessToken example_client example_endpoint 1000000 initial_cache =
     (Inr (js ''fresh''), \<lparr>accessToken = Some (js ''fresh''), tokenExpiresAt = 2799000\<rparr>,
      [the_post example_client])"
    using c6 [of initial_cache,
        THEN conjunct2, THEN conjunct1, rule_format, OF none,
        THEN conjunct2, THEN conjunct2, rule_format, OF granted] by simp
  from a stale b c show ?thesis
    by (intro conjI)
qed

section \<open>Claims about the query surface\<close>

lemma make_batches_Nil: "make_batches [] = []"
  by (simp add: make_batches_closed)

lemma getHotelOffers_no_ids:
  "hotelIds p = [] \<Longrightarrow>
     getHotelOffers v S client up p = \<lparr>allResults = [], trace = [], console = []\<rparr>"
  by (simp add: getHotelOffers_def Let_def make_batches_Nil offers_loop.simps)

lemma get_hotel_offers_rejected:
  assumes "ids = None \<or> ids = Some [] \<or> ci = None \<or> ci = Some [] \<or> co = None \<or> co = Some []"
  shows "call_tool v S client up (get_hotel_offers ids ci co opts) =
     (Inl (McpError InvalidParams (js ''hotelIds, checkInDate, and checkOutDate are required'')),
      [], [])"
  using assms by (auto simp: call_tool_def split: option.splits)

text \<open>
  C7 as stated does not hold of the tool \<open>get_hotel_offers\<close>: the handler tests
  \<open>!params.hotelIds?.length\<close> and throws \<open>InvalidParams\<close> for an empty list.
\<close>

theorem C7_empty_list_is_rejected_counterexample:
  "call_tool part_000 decimal example_client (no_data :: (nat, nat) upstream)
     (get_hotel_offers (Some []) (Some (js ''2026-03-01'')) (Some (js ''2026-03-04''))
        example_options) =
   (Inl (McpError InvalidParams (js ''hotelIds, checkInDate, and checkOutDate are required'')),
    [], [])"
  by (simp add: get_hotel_offers_rejected)

text \<open>
  C7, amended. The tool \<open>get_hotel_offers\<close> called with an empty list of identifiers
  throws the validation error and causes no upstream call. The client operation
  \<open>getHotelOffers\<close>, called with an empty list, returns an empty result and causes no
  upstream call, no pause and no console line.
\<close>

theorem C7_empty_list:
  fixes up :: "('j, 'n) upstream"
  shows "call_tool v S client up (get_hotel_offers (Some []) ci co opts) =
     (Inl (McpError InvalidParams (js ''hotelIds, checkInDate, and checkOutDate are required'')),
      [], [])
   \<and> (hotelIds p = [] \<longrightarrow>
        getHotelOffers v S client up p = \<lparr>allResults = [], trace = [], console = []\<rparr>)"
  by (simp add: get_hotel_offers_rejected getHotelOffers_no_ids)

theorem C7_empty_list_witness:
  "hotelIds (example_params 0) = []
   \<and> getHotelOffers part_000 decimal example_client second_call_fails (example_params 0) =
       \<lparr>allResults = [], trace = [], console = []\<rparr>
   \<and> calls (trace (getHotelOffers part_000 decimal example_client second_call_fails
         (example_params 0))) = []"
proof -
  have none: "hotelIds (example_params 0) = []"
    by (simp add: example_params_def example_ids_def)
  from C7_empty_list [where v = part_000 and S = decimal and client = example_client
      and up = second_call_fails and ci = None and co = None and opts = example_options
      and p = "example_params 0"] none
  have "getHotelOffers part_000 decimal example_client second_call_fails (example_params 0) =
       \<lparr>allResults = [], trace = [], console = []\<rparr>"
    by blast
  with none show ?thesis by simp
qed

text \<open>
  With an arguments object, a required field that is absent (or, for the string fields
  and the list, empty) makes each tool throw \<open>InvalidParams\<close> with a message naming the
  fields, before any upstream call: \<open>cityCode\<close> for the city search, \<open>latitude\<close>
  and \<open>longitude\<close> for the geocode search, \<open>hotelIds\<close>, \<open>checkInDate\<close> and
  \<open>checkOutDate\<close> for the pricing, \<open>offerId\<close> for the offer details and
  \<open>hotelId\<close> for the content. With the required fields present each of the four
  single-call tools makes its one call.
\<close>

lemma required_fields_validated:
  fixes up :: "('j, 'n) upstream"
  shows
  "(city = None \<or> city = Some [] \<longrightarrow>
      call_tool v S client up (search_hotels_by_city city filters) =
        (Inl (McpError InvalidParams (js ''cityCode is required'')), [], []))
   \<and> (lat = None \<or> lon = None \<longrightarrow>
      call_tool v S client up (search_hotels_by_geocode lat lon filters) =
        (Inl (McpError InvalidParams (js ''latitude and longitude are required'')), [], []))
   \<and> (ids = None \<or> ids = Some [] \<or> ci = None \<or> ci = Some [] \<or> co = None \<or> co = Some [] \<longrightarrow>
      call_tool v S client up (get_hotel_offers ids ci co opts) =
        (Inl (McpError InvalidParams
                (js ''hotelIds, checkInDate, and checkOutDate are required'')), [], []))
   \<and> (offer = None \<or> offer = Some [] \<longrightarrow>
      call_tool v S client up (get_hotel_offer_details offer language) =
        (Inl (McpError InvalidParams (js ''offerId is required'')), [], []))
   \<and> (hid = None \<or> hid = Some [] \<longrightarrow>
      call_tool v S client up (get_hotel_content hid) =
        (Inl (McpError InvalidParams (js ''hotelId is required'')), [], []))
   \<and> (\<forall>c. c \<noteq> [] \<longrightarrow>
        fst (snd (call_tool v S client up (search_hotels_by_city (Some c) filters))) =
          [Call (HotelsByCity (search_filters.extend filters (SearchHotelsByCity.fields c)))])
   \<and> (\<forall>la lo.
        fst (snd (call_tool v S client up (search_hotels_by_geocode (Some la) (Some lo) filters))) =
          [Call (HotelsByGeocode (search_filters.extend filters
                   (SearchHotelsByGeocode.fields la lo)))])
   \<and> (\<forall>oid. oid \<noteq> [] \<longrightarrow>
        fst (snd (call_tool v S client up (get_hotel_offer_details (Some oid) language))) =
          [Call (HotelOfferById \<lparr>offerId = oid, offer_lang = language\<rparr>)])
   \<and> (\<forall>h. h \<noteq> [] \<longrightarrow>
        fst (snd (call_tool v S client up (get_hotel_content (Some h)))) =
          [Call (HotelContent h)])"
proof (intro conjI allI impI)
  assume "city = None \<or> city = Some []"
  then show "call_tool v S client up (search_hotels_by_city city filters) =
        (Inl (McpError InvalidParams (js ''cityCode is required'')), [], [])"
    by (auto simp: call_tool_def)
next
  assume "lat = None \<or> lon = None"
  then show "call_tool v S client up (search_hotels_by_geocode lat lon filters) =
        (Inl (McpError InvalidParams (js ''latitude and longitude are required'')), [], [])"
    by (auto simp: call_tool_def split: option.splits)
next
  assume "ids = None \<or> ids = Some [] \<or> ci = None \<or> ci = Some [] \<or> co = None \<or> co = Some []"
  then show "call_tool v S client up (get_hotel_offers ids ci co opts) =
        (Inl (McpError InvalidParams
                (js ''hotelIds, checkInDate, and checkOutDate are required'')), [], [])"
    by (rule get_hotel_offers_rejected)
next
  assume "offer = None \<or> offer = Some []"
  then show "call_tool v S client up (get_hotel_offer_details offer language) =
        (Inl (McpError InvalidParams (js ''offerId is required'')), [], [])"
    by (auto simp: call_tool_def)
next
  assume "hid = None \<or> hid = Some []"
  then show "call_tool v S client up (get_hotel_content hid) =
        (Inl (McpError InvalidParams (js ''hotelId is required'')), [], [])"
    by (auto simp: call_tool_def)
next
  fix c :: jsstring
  assume "c \<noteq> []"
  then show "fst (snd (call_tool v S client up (search_hotels_by_city (Some c) filters))) =
          [Call (HotelsByCity (search_filters.extend filters (SearchHotelsByCity.fields c)))]"
    by (simp add: call_tool_def searchHotelsByCity_def split: sum.splits)
next
  fix la lo :: "'n nullable"
  show "fst (snd (call_tool v S client up (search_hotels_by_geocode (Some la) (Some lo) filters))) =
          [Call (HotelsByGeocode (search_filters.extend filters
                   (SearchHotelsByGeocode.fields la lo)))]"
    by (simp add: call_tool_def searchHotelsByGeocode_def split: sum.splits)
next
  fix oid :: jsstring
  assume "oid \<noteq> []"
  then show "fst (snd (call_tool v S client up (get_hotel_offer_details (Some oid) language))) =
          [Call (HotelOfferById \<lparr>offerId = oid, offer_lang = language\<rparr>)]"
    by (simp add: call_tool_def getHotelOfferById_def split: sum.splits)
next
  fix h :: jsstring
  assume "h \<noteq> []"
  then show "fst (snd (call_tool v S client up (get_hotel_content (Some h)))) =
          [Call (HotelContent h)]"
    by (simp add: call_tool_def getHotelContent_def split: sum.splits option.splits)
qed


lemma required_fields_validated_example:
  "call_tool part_000 decimal example_client second_call_fails
     (search_hotels_by_city None example_filters) =
     (Inl (McpError InvalidParams (js ''cityCode is required'')), [], [])
   \<and> call_tool part_000 decimal example_client second_call_fails
     (search_hotels_by_geocode (Some (Number 48)) None example_filters) =
     (Inl (McpError InvalidParams (js ''latitude and longitude are required'')), [], [])
   \<and> call_tool part_000 decimal example_client second_call_fails
     (get_hotel_offers (Some (example_ids 45)) None (Some (js ''2026-03-04'')) example_options) =
     (Inl (McpError InvalidParams
             (js ''hotelIds, checkInDate, and checkOutDate are required'')), [], [])
   \<and> call_tool part_000 decimal example_client second_call_fails
     (get_hotel_offer_details None (Some (js ''EN''))) =
     (Inl (McpError InvalidParams (js ''offerId is required'')), [], [])
   \<and> call_tool part_000 decimal example_client second_call_fails (get_hotel_content None) =
     (Inl (McpError InvalidParams (js ''hotelId is required'')), [], [])
   \<and> fst (snd (call_tool part_000 decimal example_client second_call_fails
        (get_hotel_content (Some (js ''HOTEL01''))))) = [Call (HotelContent (js ''HOTEL01''))]"
proof -
  note c8 = required_fields_validated [where city = None and lat = "Some (Number 48)" and lon = None
      and ids = "Some (example_ids 45)" and ci = None and co = "Some (js ''2026-03-04'')"
      and offer = None and hid = None and v = part_000 and S = decimal
      and client = example_client and up = second_call_fails and filters = example_filters
      and opts = example_options and language = "Some (js ''EN'')"]
  have h: "js ''HOTEL01'' \<noteq> []"
    by (simp add: js_Nil)
  from c8 h show ?thesis
    by simp
qed

text \<open>
  C8. The handler tests the required fields of every tool and throws \<open>InvalidParams\<close>
  with a message naming them, before any upstream call, as long as the request has an
  arguments object (\<open>required_fields_validated\<close>). A request without the optional
  \<open>arguments\<close> member has every required field missing, yet gets no validation error:
  \<open>args\<close> is \<open>undefined\<close>, the test itself throws a \<open>TypeError\<close>, and the handler
  turns that into \<open>InternalError\<close> with the message of the engine. No upstream call is
  made. A coordinate that is \<open>null\<close> passes the test \<open>=== undefined\<close> and is sent
  upstream.
\<close>

theorem C8_arguments_omitted:
  fixes up :: "('j, 'n) upstream"
  shows
  "call_tool v S client up (no_arguments (js ''search_hotels_by_city'')) =
     (Inl (McpError InternalError (cannot_read (js ''cityCode''))), [], [])
   \<and> call_tool v S client up (no_arguments (js ''search_hotels_by_geocode'')) =
     (Inl (McpError InternalError (cannot_read (js ''latitude''))), [], [])
   \<and> call_tool v S client up (no_arguments (js ''get_hotel_offers'')) =
     (Inl (McpError InternalError (cannot_read (js ''hotelIds''))), [], [])
   \<and> call_tool v S client up (no_arguments (js ''get_hotel_offer_details'')) =
     (Inl (McpError InternalError (cannot_read (js ''offerId''))), [], [])
   \<and> call_tool v S client up (no_arguments (js ''get_hotel_content'')) =
     (Inl (McpError InternalError (cannot_destructure (js ''hotelId'') (js ''args''))), [], [])
   \<and> cannot_read (js ''cityCode'') =
       js ''Cannot read properties of undefined (reading '' @ [39] @ js ''cityCode'' @ [39] @ js '')''
   \<and> InternalError \<noteq> InvalidParams
   \<and> fst (snd (call_tool v S client up
         (search_hotels_by_geocode (Some Null) (Some (Number x)) filters))) =
       [Call (HotelsByGeocode (search_filters.extend filters
                (SearchHotelsByGeocode.fields Null (Number x))))]"
  by (simp add: call_tool_def js_inject cannot_read_def searchHotelsByGeocode_def
        split: sum.splits)

lemma getHotelContent_total: "\<exists>r. fst (getHotelContent up hotelId) = Inr r"
  by (simp add: getHotelContent_def split: sum.splits)

text \<open>
  C9. \<open>getHotelContent\<close> never throws. When the upstream call fails it returns
  \<open>null\<close>; it returns content exactly when the call succeeds with content. It makes
  its one call either way. The tool \<open>get_hotel_content\<close> then answers that no content
  is available, without an error.
\<close>

theorem C9_content_failure_is_absence:
  fixes up :: "('j, 'n) upstream"
  shows
  "(\<forall>err. hotel_content up hotelId = Inl err \<longrightarrow> fst (getHotelContent up hotelId) = Inr None)
   \<and> (\<exists>r. fst (getHotelContent up hotelId) = Inr r)
   \<and> (\<forall>content. fst (getHotelContent up hotelId) = Inr (Some content) \<longleftrightarrow>
          hotel_content up hotelId = Inr (Some content))
   \<and> fst (snd (getHotelContent up hotelId)) = [Call (HotelContent hotelId)]
   \<and> (hotelId \<noteq> [] \<longrightarrow>
        (\<forall>err. hotel_content up hotelId = Inl err \<longrightarrow>
           fst (call_tool v S client up (get_hotel_content (Some hotelId))) = Inr NoContent)
        \<and> (\<forall>content. hotel_content up hotelId = Inr (Some content) \<longrightarrow>
           fst (call_tool v S client up (get_hotel_content (Some hotelId))) =
             Inr (Content hotelId content)))"
proof (intro conjI allI impI)
  fix err
  assume "hotel_content up hotelId = Inl err"
  then show "fst (getHotelContent up hotelId) = Inr None"
    by (simp add: getHotelContent_def)
next
  show "\<exists>r. fst (getHotelContent up hotelId) = Inr r"
    by (rule getHotelContent_total)
next
  fix content
  show "fst (getHotelContent up hotelId) = Inr (Some content) \<longleftrightarrow>
          hotel_content up hotelId = Inr (Some content)"
    by (simp add: getHotelContent_def split: sum.splits)
next
  show "fst (snd (getHotelContent up hotelId)) = [Call (HotelContent hotelId)]"
    by (simp add: getHotelContent_def split: sum.splits)
next
  fix err
  assume "hotelId \<noteq> []" and "hotel_content up hotelId = Inl err"
  then show "fst (call_tool v S client up (get_hotel_content (Some hotelId))) = Inr NoContent"
    by (simp add: call_tool_def getHotelContent_def)
next
  fix content
  assume "hotelId \<noteq> []" and "hotel_content up hotelId = Inr (Some content)"
  then show "fst (call_tool v S client up (get_hotel_content (Some hotelId))) =
             Inr (Content hotelId content)"
    by (simp add: call_tool_def getHotelContent_def)
qed

theorem C9_content_failure_is_absence_witness:
  "hotel_content second_call_fails (js ''HOTEL01'') = Inl server_error
   \<and> fst (getHotelContent second_call_fails (js ''HOTEL01'')) = Inr None
   \<and> fst (call_tool part_000 decimal example_client second_call_fails
        (get_hotel_content (Some (js ''HOTEL01'')))) = Inr NoContent
   \<and> hotel_content content_available (js ''HOTEL01'') = Inr (Some 7)
   \<and> fst (getHotelContent content_available (js ''HOTEL01'')) = Inr (Some 7)
   \<and> fst (call_tool part_000 decimal example_client content_available
        (get_hotel_content (Some (js ''HOTEL01'')))) = Inr (Content (js ''HOTEL01'') 7)"
proof -
  have h: "js ''HOTEL01'' \<noteq> []"
    by (simp add: js_Nil)
  have f: "hotel_content second_call_fails (js ''HOTEL01'') = Inl server_error"
    by (simp add: second_call_fails_def)
  have a: "hotel_content content_available (js ''HOTEL01'') = Inr (Some 7)"
    by (simp add: content_available_def)
  note failing = C9_content_failure_is_absence [where up = second_call_fails
      and hotelId = "js ''HOTEL01''" and v = part_000 and S = decimal and client = example_client]
  note answering = C9_content_failure_is_absence [where up = content_available
      and hotelId = "js ''HOTEL01''" and v = part_000 and S = decimal and client = example_client]
  from failing f h have 1: "fst (getHotelContent second_call_fails (js ''HOTEL01'')) = Inr None"
    and 2: "fst (call_tool part_000 decimal example_client second_call_fails
        (get_hotel_content (Some (js ''HOTEL01'')))) = Inr NoContent"
    by blast+
  from answering a h have 3: "fst (getHotelContent content_available (js ''HOTEL01'')) = Inr (Some 7)"
    and 4: "fst (call_tool part_000 decimal example_client content_available
        (get_hotel_content (Some (js ''HOTEL01'')))) = Inr (Content (js ''HOTEL01'') 7)"
    by blast+
  from f 1 2 a 3 4 show ?thesis
    by (intro conjI)
qed

section \<open>Claim about the default rate codes\<close>

lemma split_not_Nil: "split sep s \<noteq> []"
  by (induction s) (auto split: list.splits)

lemma join_Cons: "ps \<noteq> [] \<Longrightarrow> join sep (p # ps) = p @ sep @ join sep ps"
  by (cases ps) simp_all

lemma join_split: "join [sep] (split sep s) = s"
proof (induction s)
  case Nil
  show ?case by simp
next
  case (Cons c cs)
  show ?case
  proof (cases "c = sep")
    case True
    with Cons show ?thesis
      by (simp add: join_Cons split_not_Nil)
  next
    case False
    obtain p ps where sp: "split sep cs = p # ps"
      using split_not_Nil [of sep cs] by (cases "split sep cs") auto
    have "join [sep] ((c # p) # ps) = c # join [sep] (p # ps)"
      by (cases ps) simp_all
    with False Cons sp show ?thesis
      by simp
  qed
qed

lemma split_pieces: "piece \<in> set (split sep s) \<Longrightarrow> sep \<notin> set piece"
proof (induction s arbitrary: piece)
  case Nil
  then show ?case by simp
next
  case (Cons c cs)
  obtain p ps where sp: "split sep cs = p # ps"
    using split_not_Nil [of sep cs] by (cases "split sep cs") auto
  from Cons.prems Cons.IH sp show ?case
    by (auto split: if_splits)
qed

lemma trim_ends:
  assumes "trim s \<noteq> []"
  shows "\<not> is_white_space (hd (trim s))" and "\<not> is_white_space (last (trim s))"
proof -
  let ?t = "dropWhile is_white_space s"
  let ?u = "dropWhile is_white_space (rev ?t)"
  from assms have u: "?u \<noteq> []"
    by (simp add: trim_def)
  have t: "?t \<noteq> []"
  proof
    assume e: "?t = []"
    have "?u = []" unfolding e by simp
    with u show False by (rule notE)
  qed
  from u have "\<not> is_white_space (hd ?u)"
    by (rule hd_dropWhile)
  with u show "\<not> is_white_space (last (trim s))"
    by (simp add: trim_def last_rev)
  have "hd (trim s) = last ?u"
    using u by (simp add: trim_def hd_rev)
  also have "\<dots> = last (rev ?t)"
  proof -
    obtain ws where "rev ?t = ws @ ?u"
      by (metis takeWhile_dropWhile_id)
    with u show ?thesis by (metis last_appendR)
  qed
  also have "\<dots> = hd ?t"
    using t by (simp add: last_rev)
  finally show "\<not> is_white_space (hd (trim s))"
    using hd_dropWhile [OF t] by simp
qed

lemma configured_codes_set:
  "s \<noteq> [] \<Longrightarrow> configured_codes v (Some s) = filter (\<lambda>c. c \<noteq> []) (map trim (split 44 s))"
  by (simp add: configured_codes_def)

lemma configured_codes_unset:
  "configured_codes v None = Object_keys (SUPPLIER_CODES v)"
  "configured_codes v (Some []) = Object_keys (SUPPLIER_CODES v)"
  by (simp_all add: configured_codes_def)

lemma constructor_codes:
  "constructor v env = Inr client \<Longrightarrow>
     getDefaultSupplierCodes client = configured_codes v (AMADEUS_RATE_CODES env)"
  by (auto simp: constructor_def Let_def getDefaultSupplierCodes_def split: if_splits)

lemma split_APS_APS: "split 44 (js ''APS,APS'') = [js ''APS'', js ''APS'']"
  by (simp add: js_def)

lemma trim_APS_plain: "trim (js ''APS'') = js ''APS''"
  by (simp add: trim_def js_def is_white_space_def)

lemma configured_APS_APS:
  "configured_codes v (Some (js ''APS,APS'')) = [js ''APS'', js ''APS'']"
  by (simp add: configured_codes_def js_Nil split_APS_APS trim_APS_plain)

text \<open>
  C10 as stated does not hold: the constructor splits, trims and drops empty entries but
  removes no duplicate, so a configured list that names a code twice is returned with
  both occurrences.
\<close>

theorem C10_configured_list_counterexample:
  "constructor part_000 duplicate_environment =
     Inr \<lparr>clientId = js ''client'', clientSecret = js ''secret'', guestOfficeId = None,
          baseUrl = js ''https://travel.api.amadeus.com'',
          authUrl = js ''https://travel.api.amadeus.com'' @ js ''/v1/security/oauth2/token'',
          defaultSupplierCodes = [js ''APS'', js ''APS'']\<rparr>
   \<and> getDefaultSupplierCodes
        \<lparr>clientId = js ''client'', clientSecret = js ''secret'', guestOfficeId = None,
         baseUrl = js ''https://travel.api.amadeus.com'',
         authUrl = js ''https://travel.api.amadeus.com'' @ js ''/v1/security/oauth2/token'',
         defaultSupplierCodes = [js ''APS'', js ''APS'']\<rparr> = [js ''APS'', js ''APS'']
   \<and> \<not> distinct [js ''APS'', js ''APS'']"
  by (simp add: constructor_def Let_def duplicate_environment_def js_Nil js_inject
        configured_APS_APS getDefaultSupplierCodes_def part_000_def)


lemma distinct_registry_keys:
  "distinct (Object_keys (SUPPLIER_CODES part_000))"
  "distinct (Object_keys (SUPPLIER_CODES amadeus_client_ts))"
  by (simp_all add: keys_part_000 keys_amadeus_client_ts js_inject)

lemma configured_codes_trimmed:
  assumes "s \<noteq> []" and "c \<in> set (configured_codes v (Some s))"
  shows "c \<noteq> [] \<and> \<not> is_white_space (hd c) \<and> \<not> is_white_space (last c)"
proof -
  from assms obtain piece where "c = trim piece" and "trim piece \<noteq> []"
    by (auto simp: configured_codes_set)
  then show ?thesis
    by (simp add: trim_ends)
qed

text \<open>
  C10, amended. When \<open>AMADEUS_RATE_CODES\<close> is set and not empty, the default codes are
  its comma-separated entries, each trimmed, without the entries that are empty after
  trimming, in their order and with duplicates kept; every default code is then
  non-empty and has no white space at either end. Otherwise the default codes are the
  registry's own keys, which are free of duplicates in both revisions.
  \<open>getDefaultSupplierCodes\<close> returns that list. Duplicates disappear only where the
  defaults are merged into the rate codes of a pricing request.
\<close>

theorem C10_default_codes:
  "(\<forall>s. s \<noteq> [] \<longrightarrow>
      configured_codes v (Some s) = filter (\<lambda>c. c \<noteq> []) (map trim (split 44 s)))
   \<and> configured_codes v None = Object_keys (SUPPLIER_CODES v)
   \<and> configured_codes v (Some []) = Object_keys (SUPPLIER_CODES v)
   \<and> (\<forall>s. join [44] (split 44 s) = s \<and> (\<forall>piece \<in> set (split 44 s). 44 \<notin> set piece))
   \<and> (\<forall>s. s \<noteq> [] \<longrightarrow>
        (\<forall>c \<in> set (configured_codes v (Some s)).
           c \<noteq> [] \<and> \<not> is_white_space (hd c) \<and> \<not> is_white_space (last c)))
   \<and> (\<forall>env client. constructor v env = Inr client \<longrightarrow>
        getDefaultSupplierCodes client = configured_codes v (AMADEUS_RATE_CODES env))
   \<and> distinct (Object_keys (SUPPLIER_CODES part_000))
   \<and> distinct (Object_keys (SUPPLIER_CODES amadeus_client_ts))
   \<and> (\<forall>supplied configured.
        distinct (request_rate_codes v supplied (configured_codes v configured)))"
proof (intro conjI allI impI ballI)
  fix s :: jsstring
  assume "s \<noteq> []"
  then show "configured_codes v (Some s) = filter (\<lambda>c. c \<noteq> []) (map trim (split 44 s))"
    by (rule configured_codes_set)
next
  show "configured_codes v None = Object_keys (SUPPLIER_CODES v)"
    and "configured_codes v (Some []) = Object_keys (SUPPLIER_CODES v)"
    by (rule configured_codes_unset)+
next
  fix s :: jsstring
  show "join [44] (split 44 s) = s"
    by (rule join_split)
next
  fix s piece :: jsstring
  assume "piece \<in> set (split 44 s)"
  then show "44 \<notin> set piece"
    by (rule split_pieces)
next
  fix s c :: jsstring
  assume "s \<noteq> []" and "c \<in> set (configured_codes v (Some s))"
  then have "c \<noteq> [] \<and> \<not> is_white_space (hd c) \<and> \<not> is_white_space (last c)"
    by (rule configured_codes_trimmed)
  then show "c \<noteq> []" and "\<not> is_white_space (hd c)" and "\<not> is_white_space (last c)"
    by simp_all
next
  fix env client
  assume "constructor v env = Inr client"
  then show "getDefaultSupplierCodes client = configured_codes v (AMADEUS_RATE_CODES env)"
    by (rule constructor_codes)
next
  show "distinct (Object_keys (SUPPLIER_CODES part_000))"
    and "distinct (Object_keys (SUPPLIER_CODES amadeus_client_ts))"
    by (rule distinct_registry_keys)+
next
  fix supplied configured
  show "distinct (request_rate_codes v supplied (configured_codes v configured))"
    by (rule distinct_request_rate_codes)
qed

lemma split_example: "split 44 (js '' PP6 ,,APS'') = [js '' PP6 '', [], js ''APS'']"
  by (simp add: js_def)

theorem C10_default_codes_witness:
  "js '' PP6 ,,APS'' \<noteq> []
   \<and> split 44 (js '' PP6 ,,APS'') = [js '' PP6 '', [], js ''APS'']
   \<and> configured_codes part_000 (Some (js '' PP6 ,,APS'')) = [js ''PP6'', js ''APS'']
   \<and> configured_codes part_000 None =
       [js ''APS'', js ''PP6'', js ''3MF'', js ''1HZ'', js ''W9E'', js ''PR2'']
   \<and> constructor part_000 duplicate_environment \<noteq> Inl []
   \<and> (case constructor part_000 duplicate_environment of
         Inr client \<Rightarrow> getDefaultSupplierCodes client
       | Inl err \<Rightarrow> []) = [js ''APS'', js ''APS'']
   \<and> request_rate_codes part_000 None (configured_codes part_000 (Some (js ''APS,APS''))) =
       [js ''APS'']"
proof -
  note c10 = C10_default_codes [of part_000]
  have set: "js '' PP6 ,,APS'' \<noteq> []"
    by (simp add: js_Nil)
  have trimmed: "trim (js '' PP6 '') = js ''PP6''" "trim [] = []" "trim (js ''APS'') = js ''APS''"
    by (simp_all add: trim_def js_def is_white_space_def)
  from c10 set have "configured_codes part_000 (Some (js '' PP6 ,,APS'')) =
      filter (\<lambda>c. c \<noteq> []) (map trim (split 44 (js '' PP6 ,,APS'')))"
    by blast
  then have a: "configured_codes part_000 (Some (js '' PP6 ,,APS'')) = [js ''PP6'', js ''APS'']"
    by (simp add: split_example trimmed js_Nil)
  from c10 have "configured_codes part_000 None = Object_keys (SUPPLIER_CODES part_000)"
    by blast
  then have b: "configured_codes part_000 None =
       [js ''APS'', js ''PP6'', js ''3MF'', js ''1HZ'', js ''W9E'', js ''PR2'']"
    by (simp add: keys_part_000)
  obtain client where built: "constructor part_000 duplicate_environment = Inr client"
    by (simp add: constructor_def Let_def duplicate_environment_def js_Nil)
  with c10 have "getDefaultSupplierCodes client =
      configured_codes part_000 (AMADEUS_RATE_CODES duplicate_environment)"
    by blast
  then have "getDefaultSupplierCodes client = [js ''APS'', js ''APS'']"
    by (simp add: duplicate_environment_def configured_APS_APS)
  then have c: "(case constructor part_000 duplicate_environment of
         Inr client \<Rightarrow> getDefaultSupplierCodes client
       | Inl err \<Rightarrow> []) = [js ''APS'', js ''APS'']"
    by (simp add: built)
  have d: "request_rate_codes part_000 None (configured_codes part_000 (Some (js ''APS,APS''))) =
       [js ''APS'']"
    by (simp add: request_rate_codes_def merge_rate_codes_def caller_codes_def slice_def
          configured_APS_APS new_Set_Cons new_Set_Nil part_000_def)
  from set split_example a b built c d show ?thesis
    by simp
qed

end
